theory Spec2Isabelle
  imports Complex_Main "HOL-Library.Sublist"
begin

section \<open>Label masks of a segmentation image: the model\<close>

text \<open>
  The development follows \<^verbatim>\<open>src/utils/util_create_label_masks.py\<close>. The function
  loads a segmentation image, decides which labels to process, writes one binary mask
  per label and finally a text file listing the labels.

  Conventions of the embedding:
  \<^item> An array is its shape together with its elements in row-major order.
  \<^item> \<^verbatim>\<open>get_fdata()\<close> returns 64-bit floating-point numbers. The finite ones are
    rational numbers, and equality, order and truncation on them are those of the
    rationals, so a voxel value is a \<open>rat\<close>. NaN and the infinities are outside the model.
  \<^item> An entry of the caller's label list is a Python integer, of any size. Where NumPy
    compares it with the voxels or stores it in a floating-point array it is first
    converted to a 64-bit floating-point number: rounded to 53 significant bits, ties
    to even, and refused with \<^verbatim>\<open>OverflowError\<close> when the rounded value is \<open>2^1024\<close> or more.
  \<^item> The file system, the sequence of writes and the console are an explicit state
    (the record \<open>world\<close>) that every effect takes and returns. Writing a file always
    succeeds in the model; loading fails when the path holds no image.
\<close>

subsection \<open>Data\<close>

record 'v ndarray =
  shape :: "nat list"
  flat :: "'v list"

text \<open>
  The header of an image is an object of some header class. Only the class matters
  here: a header of the class of NIfTI-1 images, a header of another class (NIfTI-2,
  Analyze, a NIfTI-1 pair, ...), or the NIfTI-1 header that the library makes from a
  header of another class. What the converted header holds is left open:
  \<open>ConvertedHeader x\<close> stands for the NIfTI-1 header made from the foreign header \<open>x\<close>.
\<close>

datatype 'h header = Nifti1Header 'h | OtherHeader 'h | ConvertedHeader 'h

record ('v, 'a, 'h) nifti1image =
  dataobj :: "'v ndarray"
  affine :: 'a
  header :: "'h header"

datatype ('a, 'h) content =
    FloatImage "(rat, 'a, 'h) nifti1image"
  | IntImage "(int, 'a, 'h) nifti1image"
  | TextFile "string list"

datatype error = LoadError | OverflowError

text \<open>
  A label, as the loop sees it: an element of the floating-point array that
  \<^verbatim>\<open>np.unique\<close> returns, or an entry of the caller's list.
\<close>

datatype label = NpFloat rat | PyInt int

record ('a, 'h) world =
  disk :: "string \<Rightarrow> ('a, 'h) content option"
  journal :: "(string \<times> ('a, 'h) content) list"
  console :: "string list"

subsection \<open>Python integers as 64-bit floating-point numbers\<close>

text \<open>\<^verbatim>\<open>n.bit_length()\<close> of a natural number.\<close>

fun bit_length :: "nat \<Rightarrow> nat" where
  "bit_length n = (if n = 0 then 0 else Suc (bit_length (n div 2)))"

declare bit_length.simps [simp del]

text \<open>
  Rounding a natural number to 53 significant bits, to the nearest and ties to even:
  with \<open>e\<close> the number of bits beyond 53, the number is \<open>q * 2^e + r\<close>, and \<open>q\<close> goes up
  by one when \<open>r\<close> is more than half of \<open>2^e\<close>, or exactly half with \<open>q\<close> odd.
\<close>

definition round_nat53 :: "nat \<Rightarrow> nat" where
  "round_nat53 m =
     (if bit_length m \<le> 53 then m
      else (let e = bit_length m - 53; q = m div 2 ^ e; r = m mod 2 ^ e
            in (if 2 ^ e < 2 * r \<or> (2 * r = 2 ^ e \<and> odd q) then q + 1 else q) * 2 ^ e))"

definition round_float64 :: "int \<Rightarrow> rat" where
  "round_float64 n =
     (if n < 0 then - of_nat (round_nat53 (nat (- n))) else of_nat (round_nat53 (nat n)))"

definition float64_of_int :: "int \<Rightarrow> error + rat" where
  "float64_of_int n =
     (if 2 ^ 1024 \<le> \<bar>round_float64 n\<bar> then Inl OverflowError else Inr (round_float64 n))"

subsection \<open>Library operations used by the function\<close>

text \<open>\<^verbatim>\<open>print(s)\<close>: one more line on the console.\<close>

definition print :: "string \<Rightarrow> ('a, 'h) world \<Rightarrow> ('a, 'h) world" where
  "print s w = w\<lparr>console := console w @ [s]\<rparr>"

text \<open>A write replaces what the path held and is recorded in the journal, in order.\<close>

definition write_file :: "string \<Rightarrow> ('a, 'h) content \<Rightarrow> ('a, 'h) world \<Rightarrow> ('a, 'h) world" where
  "write_file p f w = w\<lparr>disk := (disk w)(p \<mapsto> f), journal := journal w @ [(p, f)]\<rparr>"

text \<open>
  \<^verbatim>\<open>nib.load(p)\<close> followed by the accessors the function uses: the result is the image
  with its data as \<^verbatim>\<open>get_fdata()\<close> gives them. A \<open>FloatImage\<close> holds these data as they
  are. An \<open>IntImage\<close> is an image as this function writes it: its integers become
  floating-point numbers (a stored integer has at most 64 bits, where the conversion
  cannot overflow). A path that holds nothing, or a text file, raises.
\<close>

definition as_float :: "int ndarray \<Rightarrow> rat ndarray" where
  "as_float d = \<lparr>shape = shape d, flat = map round_float64 (flat d)\<rparr>"

definition nib_load :: "('a, 'h) world \<Rightarrow> string \<Rightarrow> error + (rat, 'a, 'h) nifti1image" where
  "nib_load w p =
     (case disk w p of
        None \<Rightarrow> Inl LoadError
      | Some (TextFile ls) \<Rightarrow> Inl LoadError
      | Some (FloatImage img) \<Rightarrow> Inr img
      | Some (IntImage img) \<Rightarrow>
          Inr \<lparr>dataobj = as_float (dataobj img), affine = affine img, header = header img\<rparr>)"

definition nib_save :: "(int, 'a, 'h) nifti1image \<Rightarrow> string \<Rightarrow> ('a, 'h) world \<Rightarrow> ('a, 'h) world" where
  "nib_save img p w = write_file p (IntImage img) w"

text \<open>
  \<^verbatim>\<open>Nifti1Header.from_header(h)\<close>, which \<^verbatim>\<open>nib.Nifti1Image(data, affine, header=h)\<close>
  applies to the header it is given: a NIfTI-1 header is taken over as it is, a header
  of another class is converted to a NIfTI-1 header.
\<close>

fun from_header :: "'h header \<Rightarrow> 'h header" where
  "from_header (Nifti1Header x) = Nifti1Header x"
| "from_header (OtherHeader x) = ConvertedHeader x"
| "from_header (ConvertedHeader x) = ConvertedHeader x"

text \<open>\<^verbatim>\<open>np.unique(a)\<close>: the distinct elements of the flattened array, ascending.\<close>

definition np_unique :: "rat ndarray \<Rightarrow> rat list" where
  "np_unique a = sort (remdups (flat a))"

text \<open>
  The floating-point number NumPy makes of a label before it compares it with an
  array of floating-point numbers: an element of such an array is one already, a
  Python integer is converted.
\<close>

definition as_float64 :: "label \<Rightarrow> error + rat" where
  "as_float64 l = (case l of NpFloat x \<Rightarrow> Inr x | PyInt n \<Rightarrow> float64_of_int n)"

text \<open>\<^verbatim>\<open>lbl in arr\<close>, for a Python integer and an array of floating-point numbers.\<close>

definition contains :: "rat list \<Rightarrow> int \<Rightarrow> error + bool" where
  "contains arr lbl =
     (case float64_of_int lbl of Inl e \<Rightarrow> Inl e | Inr x \<Rightarrow> Inr (x \<in> set arr))"

text \<open>\<^verbatim>\<open>int(x)\<close> on a floating-point number truncates toward zero.\<close>

definition py_int :: "rat \<Rightarrow> int" where
  "py_int x = (if x < 0 then - \<lfloor>- x\<rfloor> else \<lfloor>x\<rfloor>)"

text \<open>\<^verbatim>\<open>int(label)\<close>: a Python integer is itself.\<close>

definition int_label :: "label \<Rightarrow> int" where
  "int_label l = (case l of NpFloat x \<Rightarrow> py_int x | PyInt n \<Rightarrow> n)"

text \<open>Decimal rendering of an integer, as \<^verbatim>\<open>str\<close>, an f-string or \<^verbatim>\<open>"%d"\<close> give it.\<close>

definition digit_char :: "nat \<Rightarrow> char" where
  "digit_char d = ''0123456789'' ! d"

fun digits :: "nat \<Rightarrow> string" where
  "digits n = (if n < 10 then [digit_char n] else digits (n div 10) @ [digit_char (n mod 10)])"

declare digits.simps [simp del]

definition str_int :: "int \<Rightarrow> string" where
  "str_int i = (if i < 0 then CHR ''-'' # digits (nat (- i)) else digits (nat i))"

text \<open>
  \<^verbatim>\<open>np.savetxt(p, labels, fmt="%d")\<close> first makes an array of \<open>labels\<close>. The array
  of \<^verbatim>\<open>np.unique\<close> is one of floating-point numbers already. For a list of Python
  integers NumPy chooses the element type: an integer is a signed 64-bit one if it
  fits, else an unsigned 64-bit one if it fits, else a Python object, and the types
  of the entries are joined, where signed and unsigned together give floating point
  and an object with anything gives objects. An empty list gives an empty
  floating-point array.
\<close>

datatype dtype = DInt64 | DUInt64 | DFloat64 | DObject

definition scalar_dtype :: "label \<Rightarrow> dtype" where
  "scalar_dtype l =
     (case l of
        NpFloat x \<Rightarrow> DFloat64
      | PyInt n \<Rightarrow>
          (if - (2 ^ 63) \<le> n \<and> n < 2 ^ 63 then DInt64
           else if 0 \<le> n \<and> n < 2 ^ 64 then DUInt64
           else DObject))"

fun promote_types :: "dtype \<Rightarrow> dtype \<Rightarrow> dtype" where
  "promote_types DObject t = DObject"
| "promote_types t DObject = DObject"
| "promote_types DFloat64 t = DFloat64"
| "promote_types t DFloat64 = DFloat64"
| "promote_types DInt64 DInt64 = DInt64"
| "promote_types DUInt64 DUInt64 = DUInt64"
| "promote_types DInt64 DUInt64 = DFloat64"
| "promote_types DUInt64 DInt64 = DFloat64"

definition array_dtype :: "label list \<Rightarrow> dtype" where
  "array_dtype ls =
     (case ls of
        [] \<Rightarrow> DFloat64
      | l # rest \<Rightarrow> fold (\<lambda>x t. promote_types t (scalar_dtype x)) rest (scalar_dtype l))"

text \<open>
  One line per element, each element formatted with \<^verbatim>\<open>%d\<close>: an integer element is
  written as it is, a floating-point element is truncated toward zero. In a
  floating-point array a Python integer of the list has become its floating-point
  value. The file is the list of its lines; no element, no line.
\<close>

definition fmt_d :: "dtype \<Rightarrow> label \<Rightarrow> string" where
  "fmt_d t l =
     str_int (case l of
                NpFloat x \<Rightarrow> py_int x
              | PyInt n \<Rightarrow> if t = DFloat64 then py_int (round_float64 n) else n)"

definition np_savetxt :: "string \<Rightarrow> label list \<Rightarrow> ('a, 'h) world \<Rightarrow> ('a, 'h) world" where
  "np_savetxt p labels w =
     write_file p (TextFile (map (fmt_d (array_dtype labels)) labels)) w"

subsection \<open>The function\<close>

text \<open>
  \<^verbatim>\<open>(seg_data == label).astype(int)\<close>: the label is converted to a floating-point
  number, which can raise, and then compared with every voxel.
\<close>

definition mask :: "rat ndarray \<Rightarrow> rat \<Rightarrow> int ndarray" where
  "mask seg_data x =
     \<lparr>shape = shape seg_data, flat = map (\<lambda>v. if v = x then 1 else 0) (flat seg_data)\<rparr>"

definition eq_mask :: "rat ndarray \<Rightarrow> label \<Rightarrow> error + int ndarray" where
  "eq_mask seg_data label =
     (case as_float64 label of Inl e \<Rightarrow> Inl e | Inr x \<Rightarrow> Inr (mask seg_data x))"

text \<open>
  Line 25, the list comprehension: the entries of the caller's list that are in the
  array, in order. The membership test of an entry can raise, and then the
  comprehension raises.
\<close>

fun present_labels :: "rat list \<Rightarrow> int list \<Rightarrow> error + int list" where
  "present_labels arr [] = Inr []"
| "present_labels arr (lbl # rest) =
     (case contains arr lbl of
        Inl e \<Rightarrow> Inl e
      | Inr b \<Rightarrow>
          (case present_labels arr rest of
             Inl e \<Rightarrow> Inl e
           | Inr kept \<Rightarrow> Inr (if b then lbl # kept else kept)))"

text \<open>
  Lines 21 to 28, without the message: \<open>Inr None\<close> is the early return, \<open>Inl\<close> an
  exception.
\<close>

definition determine_labels :: "rat ndarray \<Rightarrow> int list option \<Rightarrow> error + label list option" where
  "determine_labels seg_data label_list =
     (case label_list of
        None \<Rightarrow> Inr (Some (map NpFloat (filter (\<lambda>l. l \<noteq> 0) (np_unique seg_data))))
      | Some ll \<Rightarrow>
          (case present_labels (np_unique seg_data) ll of
             Inl e \<Rightarrow> Inl e
           | Inr labels \<Rightarrow>
               if length labels = 0 then Inr None else Inr (Some (map PyInt labels))))"

text \<open>Lines 34 and 39: the two file names.\<close>

definition out_fname :: "string \<Rightarrow> label \<Rightarrow> string" where
  "out_fname out_prefix label = out_prefix @ str_int (int_label label) @ ''.nii.gz''"

definition out_list :: "string \<Rightarrow> string" where
  "out_list out_prefix = out_prefix @ ''List.csv''"

text \<open>Lines 31 to 36: the body of the loop.\<close>

definition out_nii :: "(rat, 'a, 'h) nifti1image \<Rightarrow> int ndarray \<Rightarrow> (int, 'a, 'h) nifti1image" where
  "out_nii seg_nii out_data =
     \<lparr>dataobj = out_data, affine = affine seg_nii, header = from_header (header seg_nii)\<rparr>"

definition saved_msg :: "string \<Rightarrow> label \<Rightarrow> string" where
  "saved_msg out_prefix label =
     ''Saved label '' @ str_int (int_label label) @ '' to '' @ out_fname out_prefix label"

definition save_label ::
  "(rat, 'a, 'h) nifti1image \<Rightarrow> string \<Rightarrow> label \<Rightarrow> ('a, 'h) world \<Rightarrow> error + ('a, 'h) world" where
  "save_label seg_nii out_prefix label w =
     (case eq_mask (dataobj seg_nii) label of
        Inl e \<Rightarrow> Inl e
      | Inr out_data \<Rightarrow>
          Inr (print (saved_msg out_prefix label)
                (nib_save (out_nii seg_nii out_data) (out_fname out_prefix label) w)))"

text \<open>Line 30: the loop over the labels, in order; an exception ends it.\<close>

fun label_loop ::
  "(rat, 'a, 'h) nifti1image \<Rightarrow> string \<Rightarrow> label list \<Rightarrow> ('a, 'h) world \<Rightarrow> error + ('a, 'h) world" where
  "label_loop seg_nii out_prefix [] w = Inr w"
| "label_loop seg_nii out_prefix (label # rest) w =
     (case save_label seg_nii out_prefix label w of
        Inl e \<Rightarrow> Inl e
      | Inr w' \<Rightarrow> label_loop seg_nii out_prefix rest w')"

definition list_msg :: "string \<Rightarrow> string" where
  "list_msg out_prefix = ''Saved list of labels to '' @ out_list out_prefix"

definition no_labels_msg :: string where
  "no_labels_msg = ''No specified labels found in segmentation.''"

definition util_create_label_masks ::
  "('a, 'h) world \<Rightarrow> string \<Rightarrow> string \<Rightarrow> int list option \<Rightarrow> error + ('a, 'h) world" where
  "util_create_label_masks w seg_file out_prefix label_list =
     (case nib_load w seg_file of
        Inl e \<Rightarrow> Inl e
      | Inr seg_nii \<Rightarrow>
          (case determine_labels (dataobj seg_nii) label_list of
             Inl e \<Rightarrow> Inl e
           | Inr None \<Rightarrow> Inr (print no_labels_msg w)
           | Inr (Some labels) \<Rightarrow>
               (case label_loop seg_nii out_prefix labels w of
                  Inl e \<Rightarrow> Inl e
                | Inr w' \<Rightarrow>
                    Inr (print (list_msg out_prefix)
                          (np_savetxt (out_list out_prefix) labels w')))))"

subsection \<open>Notions used to state the properties\<close>

text \<open>
  The floating-point value of a label, and the image written for a label of that
  value: what lines 31 and 33 build when the conversion of the label does not raise.
\<close>

definition label_value :: "label \<Rightarrow> rat" where
  "label_value l = (case l of NpFloat x \<Rightarrow> x | PyInt n \<Rightarrow> round_float64 n)"

definition mask_image :: "(rat, 'a, 'h) nifti1image \<Rightarrow> label \<Rightarrow> (int, 'a, 'h) nifti1image" where
  "mask_image seg_nii l = out_nii seg_nii (mask (dataobj seg_nii) (label_value l))"

subsection \<open>Example inputs\<close>

text \<open>
  Small images, used to run the function on concrete inputs: the grid
  \<open>[[0,1],[2,1]]\<close>; a grid of zeros; a grid whose two values \<open>1.25\<close> and \<open>1.5\<close> are not
  integers; the grid \<open>[[0,1],[2,1]]\<close> under a header that is not a NIfTI-1 header; and
  two grids of large values, \<open>[0, 2^53]\<close> and \<open>[2^53, 2^63]\<close>. The affine is the
  identity and a header holds a string.
\<close>

definition identity_affine :: "rat list list" where
  "identity_affine = [[1, 0, 0, 0], [0, 1, 0, 0], [0, 0, 1, 0], [0, 0, 0, 1]]"

definition grid_nii :: "(rat, rat list list, string) nifti1image" where
  "grid_nii = \<lparr>dataobj = \<lparr>shape = [2, 2], flat = [0, 1, 2, 1]\<rparr>,
                affine = identity_affine, header = Nifti1Header ''hdr''\<rparr>"

definition zero_nii :: "(rat, rat list list, string) nifti1image" where
  "zero_nii = \<lparr>dataobj = \<lparr>shape = [2, 2], flat = [0, 0, 0, 0]\<rparr>,
                affine = identity_affine, header = Nifti1Header ''hdr''\<rparr>"

definition frac_nii :: "(rat, rat list list, string) nifti1image" where
  "frac_nii = \<lparr>dataobj = \<lparr>shape = [2], flat = [5 / 4, 3 / 2]\<rparr>,
                affine = identity_affine, header = Nifti1Header ''hdr''\<rparr>"

definition other_nii :: "(rat, rat list list, string) nifti1image" where
  "other_nii = \<lparr>dataobj = \<lparr>shape = [2, 2], flat = [0, 1, 2, 1]\<rparr>,
                 affine = identity_affine, header = OtherHeader ''hdr2''\<rparr>"

definition big_nii :: "(rat, rat list list, string) nifti1image" where
  "big_nii = \<lparr>dataobj = \<lparr>shape = [2], flat = [0, 9007199254740992]\<rparr>,
               affine = identity_affine, header = Nifti1Header ''hdr''\<rparr>"

definition huge_nii :: "(rat, rat list list, string) nifti1image" where
  "huge_nii = \<lparr>dataobj = \<lparr>shape = [2], flat = [9007199254740992, 9223372036854775808]\<rparr>,
                affine = identity_affine, header = Nifti1Header ''hdr''\<rparr>"

definition demo_world :: "(rat list list, string) world" where
  "demo_world =
     \<lparr>disk = [''seg.nii.gz'' \<mapsto> FloatImage grid_nii,
               ''zero.nii.gz'' \<mapsto> FloatImage zero_nii,
               ''frac.nii.gz'' \<mapsto> FloatImage frac_nii,
               ''other.nii'' \<mapsto> FloatImage other_nii,
               ''big.nii.gz'' \<mapsto> FloatImage big_nii,
               ''huge.nii.gz'' \<mapsto> FloatImage huge_nii],
      journal = [], console = []\<rparr>"

section \<open>Conversion of integers to floating-point numbers\<close>

lemma bit_length_le_iff: "bit_length n \<le> k \<longleftrightarrow> n < 2 ^ k"
proof (induction n arbitrary: k rule: bit_length.induct)
  case (1 n)
  show ?case
  proof (cases "n = 0")
    case True
    then show ?thesis by (subst bit_length.simps) simp
  next
    case False
    show ?thesis
    proof (cases k)
      case 0
      with False show ?thesis by (subst bit_length.simps) simp
    next
      case (Suc j)
      have "bit_length (n div 2) \<le> j \<longleftrightarrow> n div 2 < 2 ^ j" using False by (rule "1.IH")
      also have "\<dots> \<longleftrightarrow> n < 2 ^ Suc j" by auto
      finally show ?thesis using False Suc by (subst bit_length.simps) simp
    qed
  qed
qed

lemma bit_length_lower: "0 < bit_length m \<Longrightarrow> 2 ^ (bit_length m - 1) \<le> m"
proof -
  assume "0 < bit_length m"
  then have "\<not> bit_length m \<le> bit_length m - 1" by arith
  then show ?thesis unfolding bit_length_le_iff by (rule leI)
qed

lemma bit_length_upper: "m < 2 ^ bit_length m"
  using bit_length_le_iff[of m "bit_length m"] by simp

lemma round_nat53_small: "m < 2 ^ 53 \<Longrightarrow> round_nat53 m = m"
  by (simp add: round_nat53_def bit_length_le_iff)

lemma bit_length_power: "bit_length (2 ^ k) = Suc k"
proof -
  have "bit_length (2 ^ k) \<le> Suc k" by (simp add: bit_length_le_iff)
  moreover have "\<not> bit_length (2 ^ k) \<le> k" by (simp add: bit_length_le_iff)
  ultimately show ?thesis by simp
qed

lemma round_nat53_power: "round_nat53 (2 ^ k) = 2 ^ k"
proof (cases "k < 53")
  case True
  then have "(2::nat) ^ k < 2 ^ 53" by (rule power_strict_increasing) simp
  then show ?thesis by (rule round_nat53_small)
next
  case False
  define c :: nat where "c = 2 ^ 52"
  from False have k: "53 \<le> k" by simp
  then have e: "Suc k - 53 = k - 52" by simp
  have "52 + (k - 52) = k" using k by simp
  then have "(2::nat) ^ k = 2 ^ (52 + (k - 52))" by (simp only:)
  also have "\<dots> = c * 2 ^ (k - 52)" unfolding c_def by (rule power_add)
  finally have p: "(2::nat) ^ k = c * 2 ^ (k - 52)" .
  have d: "(2::nat) ^ k div 2 ^ (k - 52) = c" unfolding p by simp
  have m: "(2::nat) ^ k mod 2 ^ (k - 52) = 0" unfolding p by simp
  have nb: "\<not> Suc k \<le> 53" using k by simp
  have "round_nat53 (2 ^ k) = c * 2 ^ (k - 52)"
    using nb by (simp add: round_nat53_def bit_length_power e d m Let_def)
  with p show ?thesis by simp
qed

lemma round_nat53_exact: "m \<le> 2 ^ 53 \<Longrightarrow> round_nat53 m = m"
  using round_nat53_small[of m] round_nat53_power[of 53] by (cases "m = 2 ^ 53") auto

lemma round_nat53_ge:
  assumes "2 ^ k \<le> m"
  shows "2 ^ k \<le> round_nat53 m"
proof (cases "bit_length m \<le> 53")
  case True
  with assms show ?thesis by (simp add: round_nat53_def)
next
  case False
  define b where "b = bit_length m"
  define e where "e = b - 53"
  define q where "q = m div 2 ^ e"
  define c :: nat where "c = 2 ^ 52"
  from False have b: "53 < b" by (simp add: b_def)
  then have low: "2 ^ (b - 1) \<le> m" unfolding b_def by (intro bit_length_lower) simp
  have "m < 2 ^ b" unfolding b_def by (rule bit_length_upper)
  with assms have "(2::nat) ^ k < 2 ^ b" by (rule le_less_trans)
  then have kb: "k < b" by (rule power_less_imp_less_exp[rotated]) simp
  have split: "b - 1 = 52 + e" using b by (simp add: e_def)
  have pw: "(2::nat) ^ (b - 1) = c * 2 ^ e" unfolding split c_def by (rule power_add)
  from low have "c * 2 ^ e \<le> m" by (simp only: pw)
  then have "c \<le> q" unfolding q_def by (simp add: less_eq_div_iff_mult_less_eq)
  then have "c * 2 ^ e \<le> q * 2 ^ e" by simp
  then have qe: "(2::nat) ^ (b - 1) \<le> q * 2 ^ e" by (simp only: pw)
  have "(2::nat) ^ k \<le> 2 ^ (b - 1)" using kb by (intro power_increasing) simp_all
  then have base: "2 ^ k \<le> q * 2 ^ e" using qe by (rule le_trans)
  have "q * 2 ^ e \<le> round_nat53 m"
    using False by (simp add: round_nat53_def Let_def b_def[symmetric] e_def[symmetric] q_def[symmetric])
  with base show ?thesis by (rule le_trans)
qed

lemma round_float64_exact: "\<bar>n\<bar> \<le> 2 ^ 53 \<Longrightarrow> round_float64 n = of_int n"
proof -
  assume a: "\<bar>n\<bar> \<le> 2 ^ 53"
  show ?thesis
  proof (cases "n < 0")
    case True
    with a have "nat (- n) \<le> 2 ^ 53" by (simp add: nat_le_iff)
    then have "round_nat53 (nat (- n)) = nat (- n)" by (rule round_nat53_exact)
    with True show ?thesis by (simp add: round_float64_def)
  next
    case False
    with a have "nat n \<le> 2 ^ 53" by (simp add: nat_le_iff)
    then have "round_nat53 (nat n) = nat n" by (rule round_nat53_exact)
    with False show ?thesis by (simp add: round_float64_def)
  qed
qed

lemma abs_round_float64: "\<bar>round_float64 n\<bar> = of_nat (round_nat53 (nat \<bar>n\<bar>))"
  by (simp add: round_float64_def)

lemma float64_of_int_exact: "\<bar>n\<bar> \<le> 2 ^ 53 \<Longrightarrow> float64_of_int n = Inr (of_int n)"
proof -
  assume a: "\<bar>n\<bar> \<le> 2 ^ 53"
  then have r: "round_float64 n = of_int n" by (rule round_float64_exact)
  have "(2::int) ^ 53 < 2 ^ 1024" by simp
  with a have "\<bar>n\<bar> < 2 ^ 1024" by linarith
  then have "\<bar>of_int n :: rat\<bar> < 2 ^ 1024"
    by (metis of_int_abs of_int_less_iff of_int_numeral of_int_power)
  then show ?thesis by (simp add: float64_of_int_def r)
qed

lemma float64_of_int_overflow: "2 ^ 1024 \<le> \<bar>n\<bar> \<Longrightarrow> float64_of_int n = Inl OverflowError"
proof -
  assume a: "2 ^ 1024 \<le> \<bar>n\<bar>"
  then have "2 ^ 1024 \<le> nat \<bar>n\<bar>" by (simp add: le_nat_iff)
  then have "2 ^ 1024 \<le> round_nat53 (nat \<bar>n\<bar>)" by (rule round_nat53_ge)
  then have "(2::rat) ^ 1024 \<le> of_nat (round_nat53 (nat \<bar>n\<bar>))"
    by (metis of_nat_le_iff of_nat_numeral of_nat_power)
  then show ?thesis by (simp add: float64_of_int_def abs_round_float64)
qed

lemma float64_of_int_Inr: "float64_of_int n = Inr x \<Longrightarrow> x = round_float64 n"
  by (simp add: float64_of_int_def split: if_splits)

lemma float64_of_int_Inl: "float64_of_int n = Inl e \<Longrightarrow> e = OverflowError"
  by (simp add: float64_of_int_def split: if_splits)

lemma float64_of_int_ok_iff:
  "float64_of_int n \<noteq> Inl OverflowError \<longleftrightarrow> float64_of_int n = Inr (round_float64 n)"
  by (simp add: float64_of_int_def)

lemma round_float64_above_2_53: "round_float64 9007199254740993 = 9007199254740992"
proof -
  have "bit_length 9007199254740993 \<le> 54" by (simp add: bit_length_le_iff)
  moreover have "\<not> bit_length 9007199254740993 \<le> 53" by (simp add: bit_length_le_iff)
  ultimately have b: "bit_length 9007199254740993 = 54" by simp
  have "round_nat53 9007199254740993 = 9007199254740992"
    by (simp add: round_nat53_def b)
  then show ?thesis by (simp add: round_float64_def)
qed

lemma float64_of_int_above_2_53: "float64_of_int 9007199254740993 = Inr 9007199254740992"
  by (simp add: float64_of_int_def round_float64_above_2_53)

lemma round_float64_2_63: "round_float64 9223372036854775808 = 9223372036854775808"
proof -
  have "round_nat53 (2 ^ 63) = 2 ^ 63" by (rule round_nat53_power)
  then show ?thesis by (simp add: round_float64_def)
qed

lemma float64_of_int_2_63: "float64_of_int 9223372036854775808 = Inr 9223372036854775808"
  by (simp add: float64_of_int_def round_float64_2_63)

section \<open>Properties of the library operations\<close>

lemma set_np_unique: "set (np_unique a) = set (flat a)"
  by (simp add: np_unique_def)

lemma strict_sorted_np_unique: "sorted_wrt (<) (np_unique a)"
  by (simp add: np_unique_def strict_sorted_iff)

lemma digit_char_inj: "a < 10 \<Longrightarrow> b < 10 \<Longrightarrow> digit_char a = digit_char b \<Longrightarrow> a = b"
proof -
  assume a: "a < 10" and b: "b < 10" and e: "digit_char a = digit_char b"
  have d: "distinct ''0123456789''" by simp
  have "length ''0123456789'' = 10" by simp
  with a b e d show "a = b"
    unfolding digit_char_def by (metis nth_eq_iff_index_eq)
qed

lemma digit_char_mem: "d < 10 \<Longrightarrow> digit_char d \<in> set ''0123456789''"
  unfolding digit_char_def by (rule nth_mem) simp

lemma digits_not_Nil: "digits n \<noteq> []"
  by (subst digits.simps) simp

lemma last_digits: "last (digits n) = digit_char (n mod 10)"
  by (subst digits.simps) simp

lemma butlast_digits: "butlast (digits n) = (if n < 10 then [] else digits (n div 10))"
  by (subst digits.simps) simp

lemma set_digits: "set (digits n) \<subseteq> set ''0123456789''"
proof (induction n rule: digits.induct)
  case (1 n)
  show ?case
  proof (cases "n < 10")
    case True
    then show ?thesis using digit_char_mem[of n] by (subst digits.simps) simp
  next
    case False
    have "n mod 10 < 10" by simp
    then have "digit_char (n mod 10) \<in> set ''0123456789''" by (rule digit_char_mem)
    with False 1 show ?thesis by (subst digits.simps) simp
  qed
qed

lemma digits_inj: "digits n = digits m \<Longrightarrow> n = m"
proof (induction n arbitrary: m rule: digits.induct)
  case (1 n)
  from "1.prems" have l: "digit_char (n mod 10) = digit_char (m mod 10)"
    by (metis last_digits)
  have "n mod 10 < 10" "m mod 10 < 10" by simp_all
  with l have md: "n mod 10 = m mod 10" by (rule digit_char_inj[rotated 2])
  from "1.prems" have b: "butlast (digits n) = butlast (digits m)" by simp
  show ?case
  proof (cases "n < 10")
    case True
    with b have "m < 10" by (auto simp: butlast_digits digits_not_Nil digits_not_Nil[THEN not_sym] split: if_splits)
    with True md show ?thesis by simp
  next
    case False
    with b have m: "\<not> m < 10" by (auto simp: butlast_digits digits_not_Nil digits_not_Nil[THEN not_sym] split: if_splits)
    with b False have "digits (n div 10) = digits (m div 10)" by (simp add: butlast_digits)
    then have "n div 10 = m div 10" by (rule "1.IH"[OF False])
    with md show ?thesis by (metis div_mult_mod_eq)
  qed
qed


lemma hd_digits_not_minus: "hd (digits n) \<noteq> CHR ''-''"
proof -
  have "hd (digits n) \<in> set (digits n)" by (simp add: digits_not_Nil)
  with set_digits[of n] show ?thesis by auto
qed

lemma str_int_inj: "str_int i = str_int j \<Longrightarrow> i = j"
proof -
  assume e: "str_int i = str_int j"
  consider "i < 0" "j < 0" | "i < 0" "\<not> j < 0" | "\<not> i < 0" "j < 0" | "\<not> i < 0" "\<not> j < 0" by blast
  then show "i = j"
  proof cases
    case 1
    with e have "digits (nat (- i)) = digits (nat (- j))" by (simp add: str_int_def)
    then have "nat (- i) = nat (- j)" by (rule digits_inj)
    with 1 show ?thesis by simp
  next
    case 2
    with e have "CHR ''-'' # digits (nat (- i)) = digits (nat j)" by (simp add: str_int_def)
    then have "hd (digits (nat j)) = CHR ''-''" by (metis list.sel(1))
    then show ?thesis by (simp add: hd_digits_not_minus)
  next
    case 3
    with e have "digits (nat i) = CHR ''-'' # digits (nat (- j))" by (simp add: str_int_def)
    then have "hd (digits (nat i)) = CHR ''-''" by simp
    then show ?thesis by (simp add: hd_digits_not_minus)
  next
    case 4
    with e have "digits (nat i) = digits (nat j)" by (simp add: str_int_def)
    then have "nat i = nat j" by (rule digits_inj)
    with 4 show ?thesis by simp
  qed
qed

lemma py_int_of_int: "py_int (of_int n) = n"
  by (simp add: py_int_def)

lemma py_int_nonneg: "0 \<le> x \<Longrightarrow> of_int (py_int x) \<le> x \<and> x < of_int (py_int x) + 1 \<and> 0 \<le> py_int x"
  by (simp add: py_int_def) linarith

lemma py_int_neg: "x < 0 \<Longrightarrow> x \<le> of_int (py_int x) \<and> of_int (py_int x) - 1 < x \<and> py_int x \<le> 0"
  by (simp add: py_int_def) linarith

lemma set_str_int: "set (str_int i) \<subseteq> set ''-0123456789''"
proof -
  have e: "set ''-0123456789'' = insert CHR ''-'' (set ''0123456789'')"
    by (rule list.set(2))
  show ?thesis
  proof (cases "i < 0")
    case True
    then have "set (str_int i) = insert CHR ''-'' (set (digits (nat (- i))))"
      by (simp add: str_int_def)
    also have "\<dots> \<subseteq> insert CHR ''-'' (set ''0123456789'')"
      by (rule insert_mono) (rule set_digits)
    finally show ?thesis unfolding e .
  next
    case False
    then have "set (str_int i) = set (digits (nat i))" by (simp add: str_int_def)
    also have "\<dots> \<subseteq> insert CHR ''-'' (set ''0123456789'')"
      by (rule subset_insertI2) (rule set_digits)
    finally show ?thesis unfolding e .
  qed
qed

lemma map_of_unique_value:
  assumes "(k, v) \<in> set xs" and "\<And>v'. (k, v') \<in> set xs \<Longrightarrow> v' = v"
  shows "map_of xs k = Some v"
proof -
  from assms(1) have "k \<in> fst ` set xs" by force
  then have "map_of xs k \<noteq> None" by (simp add: map_of_eq_None_iff)
  then obtain v' where s: "map_of xs k = Some v'" by blast
  then have "(k, v') \<in> set xs" by (rule map_of_SomeD)
  then have "v' = v" by (rule assms(2))
  with s show ?thesis by simp
qed

lemma count_list_filter_keep:
  "P x \<Longrightarrow> count_list (filter P xs) x = count_list xs x"
  by (induction xs) auto

lemma count_list_map_inj:
  "(\<And>y. y \<in> set xs \<Longrightarrow> f y = f x \<Longrightarrow> y = x) \<Longrightarrow> count_list (map f xs) (f x) = count_list xs x"
  by (induction xs) auto

lemma length_filter_count_list: "length (filter (\<lambda>y. y = x) xs) = count_list xs x"
  by (induction xs) auto


lemma ne_empty_if_mem: "x \<in> set xs \<Longrightarrow> xs \<noteq> []"
  by (cases xs) simp_all


lemma py_int_truncates:
  "(0 \<le> v \<longrightarrow> 0 \<le> py_int v \<and> of_int (py_int v) \<le> v \<and> v < of_int (py_int v) + 1) \<and>
   (v < 0 \<longrightarrow> py_int v \<le> 0 \<and> v \<le> of_int (py_int v) \<and> of_int (py_int v) - 1 < v)"
  using py_int_nonneg[of v] py_int_neg[of v] by blast


lemma as_float64_NpFloat: "as_float64 (NpFloat v) = Inr v"
  by (simp add: as_float64_def)

lemma as_float64_PyInt: "as_float64 (PyInt n) = float64_of_int n"
  by (simp add: as_float64_def)

lemma label_value_NpFloat: "label_value (NpFloat v) = v"
  by (simp add: label_value_def)

lemma label_value_PyInt: "label_value (PyInt n) = round_float64 n"
  by (simp add: label_value_def)

lemma int_label_NpFloat: "int_label (NpFloat v) = py_int v"
  by (simp add: int_label_def)

lemma int_label_PyInt: "int_label (PyInt n) = n"
  by (simp add: int_label_def)

lemma save_label_ok:
  assumes "as_float64 l = Inr (label_value l)"
  shows "save_label seg_nii out_prefix l w =
     Inr (print (saved_msg out_prefix l)
           (nib_save (mask_image seg_nii l) (out_fname out_prefix l) w))"
  using assms by (simp add: save_label_def eq_mask_def mask_image_def)

lemma label_loop_ok:
  assumes "\<forall>l\<in>set ls. as_float64 l = Inr (label_value l)"
  shows "\<exists>w'. label_loop seg_nii out_prefix ls w = Inr w' \<and>
     journal w' =
       journal w @ map (\<lambda>l. (out_fname out_prefix l, IntImage (mask_image seg_nii l))) ls \<and>
     console w' = console w @ map (saved_msg out_prefix) ls \<and>
     disk w' =
       disk w ++ map_of (rev (map (\<lambda>l. (out_fname out_prefix l, IntImage (mask_image seg_nii l))) ls))"
  using assms
proof (induction ls arbitrary: w)
  case Nil
  show ?case by simp
next
  case (Cons l ls)
  let ?w1 = "print (saved_msg out_prefix l)
      (nib_save (mask_image seg_nii l) (out_fname out_prefix l) w)"
  from Cons.prems have ok: "as_float64 l = Inr (label_value l)" by simp
  then have step: "save_label seg_nii out_prefix l w = Inr ?w1" by (rule save_label_ok)
  from Cons.prems have rest: "\<forall>l\<in>set ls. as_float64 l = Inr (label_value l)" by simp
  from Cons.IH[OF rest, of ?w1] obtain w' where
    run: "label_loop seg_nii out_prefix ls ?w1 = Inr w'"
    and j: "journal w' =
       journal ?w1 @ map (\<lambda>l. (out_fname out_prefix l, IntImage (mask_image seg_nii l))) ls"
    and c: "console w' = console ?w1 @ map (saved_msg out_prefix) ls"
    and d: "disk w' =
       disk ?w1 ++ map_of (rev (map (\<lambda>l. (out_fname out_prefix l, IntImage (mask_image seg_nii l))) ls))"
    by (elim exE conjE) (rule that)
  have j1: "journal ?w1 = journal w @ [(out_fname out_prefix l, IntImage (mask_image seg_nii l))]"
    by (simp add: print_def nib_save_def write_file_def)
  have c1: "console ?w1 = console w @ [saved_msg out_prefix l]"
    by (simp add: print_def nib_save_def write_file_def)
  have d1: "disk ?w1 = (disk w)(out_fname out_prefix l \<mapsto> IntImage (mask_image seg_nii l))"
    by (simp add: print_def nib_save_def write_file_def)
  have run': "label_loop seg_nii out_prefix (l # ls) w = Inr w'"
    by (simp add: step run)
  have j': "journal w' =
       journal w @ map (\<lambda>l. (out_fname out_prefix l, IntImage (mask_image seg_nii l))) (l # ls)"
    by (simp add: j j1)
  have c': "console w' = console w @ map (saved_msg out_prefix) (l # ls)"
    by (simp add: c c1)
  have d': "disk w' =
       disk w ++ map_of (rev (map (\<lambda>l. (out_fname out_prefix l, IntImage (mask_image seg_nii l))) (l # ls)))"
    unfolding d d1 by (simp add: map_add_def fun_eq_iff split: option.splits)
  from run' j' c' d' show ?case by (intro exI[of _ w'] conjI)
qed

lemma contains_Inr: "contains arr lbl = Inr b \<Longrightarrow>
    float64_of_int lbl = Inr (round_float64 lbl) \<and> b = (round_float64 lbl \<in> set arr)"
  by (auto simp: contains_def float64_of_int_def split: if_splits)

lemma contains_ok: "float64_of_int lbl \<noteq> Inl OverflowError \<Longrightarrow>
    contains arr lbl = Inr (round_float64 lbl \<in> set arr)"
  by (simp add: contains_def float64_of_int_def split: if_splits)

lemma contains_overflow: "float64_of_int lbl = Inl OverflowError \<Longrightarrow>
    contains arr lbl = Inl OverflowError"
  by (simp add: contains_def)

lemma contains_Inl: "contains arr lbl = Inl e \<Longrightarrow> e = OverflowError"
  by (auto simp: contains_def float64_of_int_def split: if_splits)

lemma present_labels_Inr:
  "present_labels arr ll = Inr kept \<Longrightarrow>
     kept = filter (\<lambda>x. round_float64 x \<in> set arr) ll \<and>
     (\<forall>x\<in>set ll. float64_of_int x = Inr (round_float64 x))"
proof (induction ll arbitrary: kept)
  case Nil
  then show ?case by simp
next
  case (Cons lbl rest)
  from Cons.prems obtain b kept' where
    c: "contains arr lbl = Inr b" and r: "present_labels arr rest = Inr kept'"
    and k: "kept = (if b then lbl # kept' else kept')"
    by (auto split: sum.splits)
  from c have cb: "float64_of_int lbl = Inr (round_float64 lbl)"
    and b: "b = (round_float64 lbl \<in> set arr)"
    by (simp_all add: contains_Inr)
  from Cons.IH[OF r] have ih: "kept' = filter (\<lambda>x. round_float64 x \<in> set arr) rest"
    and ok: "\<forall>x\<in>set rest. float64_of_int x = Inr (round_float64 x)"
    by simp_all
  show ?case using k b ih ok cb by simp
qed

lemma present_labels_ok:
  "\<forall>x\<in>set ll. float64_of_int x \<noteq> Inl OverflowError \<Longrightarrow>
     present_labels arr ll = Inr (filter (\<lambda>x. round_float64 x \<in> set arr) ll)"
  by (induction ll) (simp_all add: contains_ok)

lemma present_labels_Inl: "present_labels arr ll = Inl e \<Longrightarrow> e = OverflowError"
proof (induction ll)
  case Nil
  then show ?case by simp
next
  case (Cons lbl rest)
  then show ?case by (auto split: sum.splits dest: contains_Inl)
qed

lemma present_labels_overflow:
  assumes "x \<in> set ll" and "float64_of_int x = Inl OverflowError"
  shows "present_labels arr ll = Inl OverflowError"
proof (cases "present_labels arr ll")
  case (Inl e)
  then show ?thesis by (simp add: present_labels_Inl)
next
  case (Inr kept)
  then have "\<forall>x\<in>set ll. float64_of_int x = Inr (round_float64 x)"
    by (simp add: present_labels_Inr)
  with assms show ?thesis by auto
qed

lemma determine_labels_None:
  "determine_labels seg_data None =
     Inr (Some (map NpFloat (filter (\<lambda>l. l \<noteq> 0) (np_unique seg_data))))"
  by (simp add: determine_labels_def)

lemma determine_labels_Some_ok:
  assumes "\<forall>x\<in>set ll. float64_of_int x \<noteq> Inl OverflowError"
  shows "determine_labels seg_data (Some ll) =
     (if filter (\<lambda>x. round_float64 x \<in> set (flat seg_data)) ll = [] then Inr None
      else Inr (Some (map PyInt (filter (\<lambda>x. round_float64 x \<in> set (flat seg_data)) ll))))"
  using assms by (simp add: determine_labels_def present_labels_ok set_np_unique)

lemma determine_labels_overflow:
  assumes "x \<in> set ll" and "float64_of_int x = Inl OverflowError"
  shows "determine_labels seg_data (Some ll) = Inl OverflowError"
  using present_labels_overflow[OF assms] by (simp add: determine_labels_def)

lemma determine_labels_Some_Inr:
  assumes "determine_labels seg_data (Some ll) = Inr (Some labels)"
  shows "labels = map PyInt (filter (\<lambda>x. round_float64 x \<in> set (flat seg_data)) ll) \<and>
     labels \<noteq> [] \<and> (\<forall>x\<in>set ll. float64_of_int x = Inr (round_float64 x))"
proof -
  from assms obtain kept where
    p: "present_labels (np_unique seg_data) ll = Inr kept" and ne: "kept \<noteq> []"
    and l: "labels = map PyInt kept"
    by (auto simp: determine_labels_def split: sum.splits if_splits)
  from present_labels_Inr[OF p] have
    k: "kept = filter (\<lambda>x. round_float64 x \<in> set (flat seg_data)) ll"
    and ok: "\<forall>x\<in>set ll. float64_of_int x = Inr (round_float64 x)"
    by (simp_all add: set_np_unique)
  from l k ne ok show ?thesis by simp
qed

lemma determine_labels_convert:
  assumes "determine_labels seg_data label_list = Inr (Some labels)"
  shows "\<forall>l\<in>set labels. as_float64 l = Inr (label_value l)"
proof (cases label_list)
  case None
  with assms have "labels = map NpFloat (filter (\<lambda>l. l \<noteq> 0) (np_unique seg_data))"
    by (simp add: determine_labels_None)
  then show ?thesis by (auto simp: as_float64_NpFloat label_value_NpFloat)
next
  case (Some ll)
  with assms have d: "determine_labels seg_data (Some ll) = Inr (Some labels)" by simp
  from determine_labels_Some_Inr[OF d] have
    l: "labels = map PyInt (filter (\<lambda>x. round_float64 x \<in> set (flat seg_data)) ll)"
    and ok: "\<forall>x\<in>set ll. float64_of_int x = Inr (round_float64 x)"
    by simp_all
  show ?thesis unfolding l using ok by (auto simp: as_float64_PyInt label_value_PyInt)
qed

lemma determine_labels_kind:
  assumes "determine_labels seg_data label_list = Inr (Some labels)"
  shows "(\<exists>vs. labels = map NpFloat vs) \<or> ((\<exists>ns. labels = map PyInt ns) \<and> labels \<noteq> [])"
proof (cases label_list)
  case None
  with assms show ?thesis by (auto simp: determine_labels_None)
next
  case (Some ll)
  with assms have d: "determine_labels seg_data (Some ll) = Inr (Some labels)" by simp
  from determine_labels_Some_Inr[OF d] show ?thesis by blast
qed

section \<open>Running the function\<close>

text \<open>
  Once the image is loaded and the labels are determined, no conversion in the loop
  can fail: the function returns, and its journal, console and disk are those of the
  loop followed by the manifest and the last message.
\<close>

lemma run_labels:
  assumes load: "nib_load w seg_file = Inr seg_nii"
    and labels: "determine_labels (dataobj seg_nii) label_list = Inr (Some labels)"
  shows "\<exists>w'. util_create_label_masks w seg_file out_prefix label_list = Inr w' \<and>
     journal w' =
       journal w @ map (\<lambda>l. (out_fname out_prefix l, IntImage (mask_image seg_nii l))) labels @
         [(out_list out_prefix, TextFile (map (fmt_d (array_dtype labels)) labels))] \<and>
     console w' = console w @ map (saved_msg out_prefix) labels @ [list_msg out_prefix] \<and>
     disk w' =
       (disk w ++ map_of (rev (map (\<lambda>l. (out_fname out_prefix l, IntImage (mask_image seg_nii l))) labels)))
         (out_list out_prefix \<mapsto> TextFile (map (fmt_d (array_dtype labels)) labels))"
proof -
  from labels have "\<forall>l\<in>set labels. as_float64 l = Inr (label_value l)"
    by (rule determine_labels_convert)
  from label_loop_ok[OF this, of seg_nii out_prefix w] obtain w1 where
    loop: "label_loop seg_nii out_prefix labels w = Inr w1"
    and j: "journal w1 =
       journal w @ map (\<lambda>l. (out_fname out_prefix l, IntImage (mask_image seg_nii l))) labels"
    and c: "console w1 = console w @ map (saved_msg out_prefix) labels"
    and d: "disk w1 =
       disk w ++ map_of (rev (map (\<lambda>l. (out_fname out_prefix l, IntImage (mask_image seg_nii l))) labels))"
    by (elim exE conjE) (rule that)
  let ?w' = "print (list_msg out_prefix) (np_savetxt (out_list out_prefix) labels w1)"
  have run: "util_create_label_masks w seg_file out_prefix label_list = Inr ?w'"
    using load labels loop by (simp add: util_create_label_masks_def)
  have j': "journal ?w' =
       journal w @ map (\<lambda>l. (out_fname out_prefix l, IntImage (mask_image seg_nii l))) labels @
         [(out_list out_prefix, TextFile (map (fmt_d (array_dtype labels)) labels))]"
    by (simp add: print_def np_savetxt_def write_file_def j)
  have c': "console ?w' = console w @ map (saved_msg out_prefix) labels @ [list_msg out_prefix]"
    by (simp add: print_def np_savetxt_def write_file_def c)
  have d': "disk ?w' =
       (disk w ++ map_of (rev (map (\<lambda>l. (out_fname out_prefix l, IntImage (mask_image seg_nii l))) labels)))
         (out_list out_prefix \<mapsto> TextFile (map (fmt_d (array_dtype labels)) labels))"
    by (simp add: print_def np_savetxt_def write_file_def d)
  from run j' c' d' show ?thesis by (intro exI[of _ ?w'] conjI)
qed

lemma run_loop:
  assumes "nib_load w seg_file = Inr seg_nii"
    and "determine_labels (dataobj seg_nii) label_list = Inr (Some labels)"
  shows "util_create_label_masks w seg_file out_prefix label_list =
     (case label_loop seg_nii out_prefix labels w of
        Inl e \<Rightarrow> Inl e
      | Inr w' \<Rightarrow>
          Inr (print (list_msg out_prefix) (np_savetxt (out_list out_prefix) labels w')))"
  using assms by (simp add: util_create_label_masks_def)

lemma run_early:
  assumes "nib_load w seg_file = Inr seg_nii"
    and "determine_labels (dataobj seg_nii) label_list = Inr None"
  shows "util_create_label_masks w seg_file out_prefix label_list = Inr (print no_labels_msg w)"
  using assms by (simp add: util_create_label_masks_def)

lemma run_raises:
  assumes "nib_load w seg_file = Inr seg_nii"
    and "determine_labels (dataobj seg_nii) label_list = Inl e"
  shows "util_create_label_masks w seg_file out_prefix label_list = Inl e"
  using assms by (simp add: util_create_label_masks_def)

lemma nth_mask_write:
  assumes "journal w' = journal w @ map f labels @ [z]" and "k < length labels"
  shows "journal w' ! (length (journal w) + k) = f (labels ! k)"
  using assms by (simp add: nth_append)

lemma nth_saved_msg:
  assumes "console w' = console w @ map f labels @ [z]" and "k < length labels"
  shows "console w' ! (length (console w) + k) = f (labels ! k)"
  using assms by (simp add: nth_append)

section \<open>The manifest\<close>

lemma fmt_d_NpFloat: "fmt_d t (NpFloat v) = str_int (py_int v)"
  by (simp add: fmt_d_def)

lemma fmt_d_PyInt_exact: "\<bar>n\<bar> \<le> 2 ^ 53 \<Longrightarrow> fmt_d t (PyInt n) = str_int n"
  by (simp add: fmt_d_def round_float64_exact py_int_of_int)

lemma fmt_d_PyInt_integer: "t \<noteq> DFloat64 \<Longrightarrow> fmt_d t (PyInt n) = str_int n"
  by (simp add: fmt_d_def)

lemma fmt_d_cases:
  "fmt_d t l = str_int (int_label l) \<or> fmt_d t l = str_int (py_int (label_value l))"
  by (cases l) (simp_all add: fmt_d_def int_label_def label_value_def)

lemma set_fmt_d: "set (fmt_d t l) \<subseteq> set ''-0123456789''"
  unfolding fmt_d_def by (rule set_str_int)

lemma fold_promote_int64:
  "\<forall>l\<in>set ls. scalar_dtype l = DInt64 \<Longrightarrow>
     fold (\<lambda>x t. promote_types t (scalar_dtype x)) ls DInt64 = DInt64"
  by (induction ls) simp_all

lemma array_dtype_int64:
  assumes "ls \<noteq> []" and "\<forall>l\<in>set ls. scalar_dtype l = DInt64"
  shows "array_dtype ls = DInt64"
proof (cases ls)
  case Nil
  with assms(1) show ?thesis by simp
next
  case (Cons l rest)
  with assms(2) have "scalar_dtype l = DInt64" "\<forall>l\<in>set rest. scalar_dtype l = DInt64" by simp_all
  then show ?thesis unfolding Cons by (simp add: array_dtype_def fold_promote_int64)
qed

lemma scalar_dtype_int64: "- (2 ^ 63) \<le> n \<Longrightarrow> n < 2 ^ 63 \<Longrightarrow> scalar_dtype (PyInt n) = DInt64"
  by (simp add: scalar_dtype_def)

lemma manifest_line_int64:
  assumes kind: "(\<exists>vs. labels = map NpFloat vs) \<or> ((\<exists>ns. labels = map PyInt ns) \<and> labels \<noteq> [])"
    and fit: "\<forall>n. PyInt n \<in> set labels \<longrightarrow> - (2 ^ 63) \<le> n \<and> n < 2 ^ 63"
    and mem: "l \<in> set labels"
  shows "fmt_d (array_dtype labels) l = str_int (int_label l)"
proof (cases l)
  case (NpFloat v)
  then show ?thesis by (simp add: fmt_d_NpFloat int_label_NpFloat)
next
  case (PyInt n)
  have all: "\<forall>l\<in>set labels. scalar_dtype l = DInt64"
  proof
    fix y assume y: "y \<in> set labels"
    from kind mem PyInt obtain ns where "labels = map PyInt ns" by auto
    with y obtain m where m: "y = PyInt m" by auto
    with y fit have "- (2 ^ 63) \<le> m \<and> m < 2 ^ 63" by simp
    then show "scalar_dtype y = DInt64" unfolding m by (simp add: scalar_dtype_int64)
  qed
  from mem have "labels \<noteq> []" by (rule ne_empty_if_mem)
  then have "array_dtype labels = DInt64" using all by (rule array_dtype_int64)
  then show ?thesis unfolding PyInt by (simp add: fmt_d_PyInt_integer int_label_PyInt)
qed

section \<open>The file names\<close>

lemma out_fname_PyInt: "out_fname out_prefix (PyInt n) = out_prefix @ str_int n @ ''.nii.gz''"
  by (simp add: out_fname_def int_label_def)

lemma out_fname_PyInt_inj:
  "out_fname out_prefix (PyInt a) = out_fname out_prefix (PyInt b) \<Longrightarrow> a = b"
  by (simp add: out_fname_PyInt str_int_inj)

lemma out_list_neq_out_fname: "out_list out_prefix \<noteq> out_fname out_prefix x"
proof
  assume "out_list out_prefix = out_fname out_prefix x"
  then have "''List.csv'' = str_int (int_label x) @ ''.nii.gz''"
    by (simp add: out_list_def out_fname_def)
  then have "last ''List.csv'' = last (str_int (int_label x) @ ''.nii.gz'')" by (rule arg_cong)
  then show False by simp
qed

lemma count_mask_writes:
  "length (filter (\<lambda>e. fst e = out_fname out_prefix (PyInt l))
           (map (\<lambda>x. (out_fname out_prefix x, IntImage (mask_image seg_nii x))) (map PyInt kept) @
             [(out_list out_prefix, c)])) = count_list kept l"
proof -
  have "filter (\<lambda>y. out_fname out_prefix (PyInt y) = out_fname out_prefix (PyInt l)) kept =
      filter (\<lambda>y. y = l) kept"
    by (rule filter_cong) (auto dest: out_fname_PyInt_inj)
  then have "length (filter (\<lambda>y. out_fname out_prefix (PyInt y) = out_fname out_prefix (PyInt l)) kept) =
      count_list kept l"
    by (simp add: length_filter_count_list)
  then show ?thesis
    by (simp add: filter_map comp_def out_list_neq_out_fname)
qed

lemma disk_after_mask_writes:
  assumes "l \<in> set kept"
  shows "((d ++ map_of (rev (map (\<lambda>x. (out_fname out_prefix x, IntImage (mask_image seg_nii x)))
              (map PyInt kept))))(out_list out_prefix \<mapsto> c))
           (out_fname out_prefix (PyInt l)) = Some (IntImage (mask_image seg_nii (PyInt l)))"
proof -
  let ?p = "out_fname out_prefix (PyInt l)"
  let ?ws = "rev (map (\<lambda>x. (out_fname out_prefix x, IntImage (mask_image seg_nii x)))
      (map PyInt kept))"
  have mem: "(?p, IntImage (mask_image seg_nii (PyInt l))) \<in> set ?ws"
    using assms by force
  have uniq: "v' = IntImage (mask_image seg_nii (PyInt l))" if "(?p, v') \<in> set ?ws" for v'
  proof -
    from that obtain y where y: "y \<in> set kept" "out_fname out_prefix (PyInt y) = ?p"
        "v' = IntImage (mask_image seg_nii (PyInt y))"
      by auto
    from y(2) have "y = l" by (rule out_fname_PyInt_inj)
    with y(3) show ?thesis by simp
  qed
  from mem uniq have m: "map_of ?ws ?p = Some (IntImage (mask_image seg_nii (PyInt l)))"
    by (rule map_of_unique_value)
  have ne: "out_list out_prefix \<noteq> ?p" by (rule out_list_neq_out_fname)
  have "((d ++ map_of ?ws)(out_list out_prefix \<mapsto> c)) ?p = (d ++ map_of ?ws) ?p"
    using ne by simp
  also have "\<dots> = Some (IntImage (mask_image seg_nii (PyInt l)))"
    using m by (rule map_add_find_right)
  finally show ?thesis .
qed

section \<open>The example inputs\<close>

lemma load_seg: "nib_load demo_world ''seg.nii.gz'' = Inr grid_nii"
  by (simp add: nib_load_def demo_world_def)

lemma load_zero: "nib_load demo_world ''zero.nii.gz'' = Inr zero_nii"
  by (simp add: nib_load_def demo_world_def)

lemma load_frac: "nib_load demo_world ''frac.nii.gz'' = Inr frac_nii"
  by (simp add: nib_load_def demo_world_def)

lemma load_other: "nib_load demo_world ''other.nii'' = Inr other_nii"
  by (simp add: nib_load_def demo_world_def)

lemma load_big: "nib_load demo_world ''big.nii.gz'' = Inr big_nii"
  by (simp add: nib_load_def demo_world_def)

lemma load_huge: "nib_load demo_world ''huge.nii.gz'' = Inr huge_nii"
  by (simp add: nib_load_def demo_world_def)

lemma demo_world_empty: "journal demo_world = []" "console demo_world = []"
  by (simp_all add: demo_world_def)

lemma float64_of_int_small:
  "float64_of_int 1 = Inr 1" "float64_of_int 2 = Inr 2" "float64_of_int 5 = Inr 5"
  "float64_of_int 9 = Inr 9"
  by (simp_all add: float64_of_int_exact)

lemma round_float64_small:
  "round_float64 1 = 1" "round_float64 2 = 2" "round_float64 5 = 5" "round_float64 9 = 9"
  by (simp_all add: round_float64_exact)

lemma labels_seg_auto:
  "determine_labels (dataobj grid_nii) None = Inr (Some [NpFloat 1, NpFloat 2])"
  by (simp add: determine_labels_def np_unique_def grid_nii_def)

lemma labels_seg_2_5:
  "determine_labels (dataobj grid_nii) (Some [2, 5]) = Inr (Some [PyInt 2])"
  by (simp add: determine_labels_def np_unique_def grid_nii_def contains_def float64_of_int_small)

lemma labels_frac_auto:
  "determine_labels (dataobj frac_nii) None = Inr (Some [NpFloat (5 / 4), NpFloat (3 / 2)])"
  by (simp add: determine_labels_def np_unique_def frac_nii_def)

lemma labels_big:
  "determine_labels (dataobj big_nii) (Some [9007199254740993]) =
     Inr (Some [PyInt 9007199254740993])"
  by (simp add: determine_labels_def np_unique_def big_nii_def contains_def
      float64_of_int_above_2_53)

lemma labels_huge:
  "determine_labels (dataobj huge_nii) (Some [9007199254740993, 9223372036854775808]) =
     Inr (Some [PyInt 9007199254740993, PyInt 9223372036854775808])"
  by (simp add: determine_labels_def np_unique_def huge_nii_def contains_def
      float64_of_int_above_2_53 float64_of_int_2_63)

lemma str_int_small:
  "str_int 1 = ''1''" "str_int 2 = ''2''"
  by (simp_all add: str_int_def digits.simps digit_char_def)

lemma str_int_above_2_53: "str_int 9007199254740993 = ''9007199254740993''"
  by (simp add: str_int_def digits.simps digit_char_def)

lemma str_int_2_53: "str_int 9007199254740992 = ''9007199254740992''"
  by (simp add: str_int_def digits.simps digit_char_def)

lemma str_int_2_63: "str_int 9223372036854775808 = ''9223372036854775808''"
  by (simp add: str_int_def digits.simps digit_char_def)

section \<open>The claims\<close>

text \<open>
  C1. For every label that is processed, the mask written for it has one element per
  voxel of the source grid, and the element is 1 where the source voxel equals the
  floating-point value of the label and 0 elsewhere, with no tolerance. A label found
  in the grid is its own value. An entry of the caller's list is compared after its
  conversion to a 64-bit floating-point number, which is the entry itself when its
  magnitude is at most \<open>2^53\<close>. The labels are processed in order, so the \<open>k\<close>-th write
  of the run is the mask of the \<open>k\<close>-th label.
\<close>

theorem mask_correctness:
  assumes load: "nib_load w seg_file = Inr seg_nii"
    and labels: "determine_labels (dataobj seg_nii) label_list = Inr (Some labels)"
  shows "\<exists>w'. util_create_label_masks w seg_file out_prefix label_list = Inr w' \<and>
           (\<forall>k<length labels. \<exists>m x.
              journal w' ! (length (journal w) + k) =
                (out_fname out_prefix (labels ! k), IntImage m) \<and>
              as_float64 (labels ! k) = Inr x \<and>
              length (flat (dataobj m)) = length (flat (dataobj seg_nii)) \<and>
              (\<forall>i<length (flat (dataobj seg_nii)).
                 flat (dataobj m) ! i = (if flat (dataobj seg_nii) ! i = x then 1 else 0)) \<and>
              (\<forall>v. labels ! k = NpFloat v \<longrightarrow> x = v) \<and>
              (\<forall>n. labels ! k = PyInt n \<longrightarrow>
                 x = round_float64 n \<and> (\<bar>n\<bar> \<le> 2 ^ 53 \<longrightarrow> x = of_int n)))"
proof -
  from run_labels[OF load labels, of out_prefix] obtain w' where
    run: "util_create_label_masks w seg_file out_prefix label_list = Inr w'"
    and j: "journal w' =
       journal w @ map (\<lambda>l. (out_fname out_prefix l, IntImage (mask_image seg_nii l))) labels @
         [(out_list out_prefix, TextFile (map (fmt_d (array_dtype labels)) labels))]"
    by (elim exE conjE) (rule that)
  from labels have conv: "\<forall>l\<in>set labels. as_float64 l = Inr (label_value l)"
    by (rule determine_labels_convert)
  have "\<exists>m x.
      journal w' ! (length (journal w) + k) =
        (out_fname out_prefix (labels ! k), IntImage m) \<and>
      as_float64 (labels ! k) = Inr x \<and>
      length (flat (dataobj m)) = length (flat (dataobj seg_nii)) \<and>
      (\<forall>i<length (flat (dataobj seg_nii)).
         flat (dataobj m) ! i = (if flat (dataobj seg_nii) ! i = x then 1 else 0)) \<and>
      (\<forall>v. labels ! k = NpFloat v \<longrightarrow> x = v) \<and>
      (\<forall>n. labels ! k = PyInt n \<longrightarrow>
         x = round_float64 n \<and> (\<bar>n\<bar> \<le> 2 ^ 53 \<longrightarrow> x = of_int n))"
    if k: "k < length labels" for k
  proof (intro exI conjI)
    show "journal w' ! (length (journal w) + k) =
        (out_fname out_prefix (labels ! k), IntImage (mask_image seg_nii (labels ! k)))"
      using j k by (rule nth_mask_write)
    show "as_float64 (labels ! k) = Inr (label_value (labels ! k))"
      using conv k by simp
    show "length (flat (dataobj (mask_image seg_nii (labels ! k)))) =
        length (flat (dataobj seg_nii))"
      by (simp add: mask_image_def out_nii_def mask_def)
    show "\<forall>i<length (flat (dataobj seg_nii)).
        flat (dataobj (mask_image seg_nii (labels ! k))) ! i =
          (if flat (dataobj seg_nii) ! i = label_value (labels ! k) then 1 else 0)"
      by (simp add: mask_image_def out_nii_def mask_def)
    show "\<forall>v. labels ! k = NpFloat v \<longrightarrow> label_value (labels ! k) = v"
      by (simp add: label_value_def)
    show "\<forall>n. labels ! k = PyInt n \<longrightarrow>
        label_value (labels ! k) = round_float64 n \<and>
        (\<bar>n\<bar> \<le> 2 ^ 53 \<longrightarrow> label_value (labels ! k) = of_int n)"
      by (simp add: label_value_def round_float64_exact)
  qed
  with run show ?thesis by blast
qed

theorem mask_correctness_witness:
  "nib_load demo_world ''seg.nii.gz'' = Inr grid_nii \<and>
   determine_labels (dataobj grid_nii) None = Inr (Some [NpFloat 1, NpFloat 2]) \<and>
   (\<exists>w'. util_create_label_masks demo_world ''seg.nii.gz'' ''out_'' None = Inr w' \<and>
      (\<exists>m. journal w' ! 0 = (''out_1.nii.gz'', IntImage m) \<and> flat (dataobj m) = [0, 1, 0, 1]) \<and>
      (\<exists>m. journal w' ! 1 = (''out_2.nii.gz'', IntImage m) \<and> flat (dataobj m) = [0, 0, 1, 0]))"
proof -
  from mask_correctness[OF load_seg labels_seg_auto, where out_prefix = "''out_''"]
  obtain w' where run: "util_create_label_masks demo_world ''seg.nii.gz'' ''out_'' None = Inr w'"
    and all: "\<forall>k<length [NpFloat 1, NpFloat 2]. \<exists>m x.
              journal w' ! (length (journal demo_world) + k) =
                (out_fname ''out_'' ([NpFloat 1, NpFloat 2] ! k), IntImage m) \<and>
              as_float64 ([NpFloat 1, NpFloat 2] ! k) = Inr x \<and>
              length (flat (dataobj m)) = length (flat (dataobj grid_nii)) \<and>
              (\<forall>i<length (flat (dataobj grid_nii)).
                 flat (dataobj m) ! i = (if flat (dataobj grid_nii) ! i = x then 1 else 0)) \<and>
              (\<forall>v. [NpFloat 1, NpFloat 2] ! k = NpFloat v \<longrightarrow> x = v) \<and>
              (\<forall>n. [NpFloat 1, NpFloat 2] ! k = PyInt n \<longrightarrow>
                 x = round_float64 n \<and> (\<bar>n\<bar> \<le> 2 ^ 53 \<longrightarrow> x = of_int n))"
    by blast
  have j0: "length (journal demo_world) = 0" by (simp add: demo_world_def)
  have n1: "out_fname ''out_'' (NpFloat 1) = ''out_1.nii.gz''"
    by (simp add: out_fname_def int_label_def py_int_def str_int_def digits.simps digit_char_def)
  have n2: "out_fname ''out_'' (NpFloat 2) = ''out_2.nii.gz''"
    by (simp add: out_fname_def int_label_def py_int_def str_int_def digits.simps digit_char_def)
  have len: "length (flat (dataobj grid_nii)) = 4" by (simp add: grid_nii_def)
  have vals: "xs = [a, b, c, d]"
    if "length xs = 4" "xs ! 0 = a" "xs ! 1 = b" "xs ! 2 = c" "xs ! 3 = d" for xs :: "int list" and a b c d
    using that by (auto simp: list_eq_iff_nth_eq less_Suc_eq numeral_eq_Suc)
  have "\<exists>m. journal w' ! 0 = (''out_1.nii.gz'', IntImage m) \<and>
      length (flat (dataobj m)) = 4 \<and>
      (\<forall>i<4. flat (dataobj m) ! i = (if flat (dataobj grid_nii) ! i = 1 then 1 else 0))"
    using all[THEN spec, of 0] by (simp add: j0 n1 len as_float64_NpFloat)
  then obtain m1 where m1: "journal w' ! 0 = (''out_1.nii.gz'', IntImage m1)"
    and l1: "length (flat (dataobj m1)) = 4"
    and e1: "\<forall>i<4. flat (dataobj m1) ! i = (if flat (dataobj grid_nii) ! i = 1 then 1 else 0)"
    by (elim exE conjE) (rule that)
  have "\<exists>m. journal w' ! 1 = (''out_2.nii.gz'', IntImage m) \<and>
      length (flat (dataobj m)) = 4 \<and>
      (\<forall>i<4. flat (dataobj m) ! i = (if flat (dataobj grid_nii) ! i = 2 then 1 else 0))"
    using all[THEN spec, of 1] by (simp add: j0 n2 len as_float64_NpFloat)
  then obtain m2 where m2: "journal w' ! 1 = (''out_2.nii.gz'', IntImage m2)"
    and l2: "length (flat (dataobj m2)) = 4"
    and e2: "\<forall>i<4. flat (dataobj m2) ! i = (if flat (dataobj grid_nii) ! i = 2 then 1 else 0)"
    by (elim exE conjE) (rule that)
  have f1: "flat (dataobj m1) = [0, 1, 0, 1]"
    using l1 e1 by (intro vals) (simp_all add: grid_nii_def)
  have f2: "flat (dataobj m2) = [0, 0, 1, 0]"
    using l2 e2 by (intro vals) (simp_all add: grid_nii_def)
  from m1 f1 have a: "\<exists>m. journal w' ! 0 = (''out_1.nii.gz'', IntImage m) \<and> flat (dataobj m) = [0, 1, 0, 1]"
    by (intro exI[of _ m1] conjI)
  from m2 f2 have b: "\<exists>m. journal w' ! 1 = (''out_2.nii.gz'', IntImage m) \<and> flat (dataobj m) = [0, 0, 1, 0]"
    by (intro exI[of _ m2] conjI)
  from load_seg labels_seg_auto run a b show ?thesis by (intro conjI exI[of _ w'])
qed

theorem mask_correctness_counterexample:
  "nib_load demo_world ''big.nii.gz'' = Inr big_nii \<and>
   flat (dataobj big_nii) = [0, 9007199254740992] \<and>
   map_sum id journal
     (util_create_label_masks demo_world ''big.nii.gz'' ''out_'' (Some [9007199254740993])) =
     Inr [(''out_9007199254740993.nii.gz'',
           IntImage \<lparr>dataobj = \<lparr>shape = [2], flat = [0, 1]\<rparr>,
                     affine = identity_affine, header = Nifti1Header ''hdr''\<rparr>),
          (''out_List.csv'', TextFile [''9007199254740993''])] \<and>
   flat (dataobj big_nii) ! 1 \<noteq> of_int 9007199254740993"
proof -
  have f: "flat (dataobj big_nii) = [0, 9007199254740992]" by (simp add: big_nii_def)
  have r: "map_sum id journal
     (util_create_label_masks demo_world ''big.nii.gz'' ''out_'' (Some [9007199254740993])) =
     Inr [(''out_9007199254740993.nii.gz'',
           IntImage \<lparr>dataobj = \<lparr>shape = [2], flat = [0, 1]\<rparr>,
                     affine = identity_affine, header = Nifti1Header ''hdr''\<rparr>),
          (''out_List.csv'', TextFile [''9007199254740993''])]"
    unfolding run_loop[OF load_big labels_big]
    by (simp add: save_label_def eq_mask_def
        as_float64_def float64_of_int_above_2_53 mask_def out_nii_def out_fname_def out_list_def
        int_label_def str_int_above_2_53 print_def nib_save_def write_file_def np_savetxt_def
        array_dtype_def scalar_dtype_def fmt_d_def demo_world_empty big_nii_def)
  have n: "flat (dataobj big_nii) ! 1 \<noteq> of_int 9007199254740993" by (simp add: big_nii_def)
  from load_big f r n show ?thesis by (intro conjI)
qed

text \<open>
  C2. For every label that is processed, the image written for it has the shape of the
  source grid and as many voxels, and the affine of the source image. Its header is
  the NIfTI-1 header that the image constructor makes of the source header: the source
  header itself when that is a NIfTI-1 header, and a converted header, which is not the
  source header, when the source header is of another class.
\<close>

theorem shape_affine_header_preserved:
  assumes load: "nib_load w seg_file = Inr seg_nii"
    and labels: "determine_labels (dataobj seg_nii) label_list = Inr (Some labels)"
  shows "\<exists>w'. util_create_label_masks w seg_file out_prefix label_list = Inr w' \<and>
           (\<forall>k<length labels. \<exists>m.
              journal w' ! (length (journal w) + k) =
                (out_fname out_prefix (labels ! k), IntImage m) \<and>
              shape (dataobj m) = shape (dataobj seg_nii) \<and>
              length (flat (dataobj m)) = length (flat (dataobj seg_nii)) \<and>
              (prod_list (shape (dataobj seg_nii)) = length (flat (dataobj seg_nii)) \<longrightarrow>
                 prod_list (shape (dataobj m)) = length (flat (dataobj m))) \<and>
              affine m = affine seg_nii \<and>
              header m = from_header (header seg_nii) \<and>
              ((\<forall>x. header seg_nii \<noteq> OtherHeader x) \<longrightarrow> header m = header seg_nii) \<and>
              (\<forall>x. header seg_nii = OtherHeader x \<longrightarrow>
                 header m = ConvertedHeader x \<and> header m \<noteq> header seg_nii))"
proof -
  from run_labels[OF load labels, of out_prefix] obtain w' where
    run: "util_create_label_masks w seg_file out_prefix label_list = Inr w'"
    and j: "journal w' =
       journal w @ map (\<lambda>l. (out_fname out_prefix l, IntImage (mask_image seg_nii l))) labels @
         [(out_list out_prefix, TextFile (map (fmt_d (array_dtype labels)) labels))]"
    by (elim exE conjE) (rule that)
  have keep: "(\<forall>x. h \<noteq> OtherHeader x) \<longrightarrow> from_header h = h" for h :: "'b header"
    by (cases h) simp_all
  have conv: "\<forall>x. h = OtherHeader x \<longrightarrow> from_header h = ConvertedHeader x \<and> from_header h \<noteq> h"
    for h :: "'b header"
    by (cases h) simp_all
  have "\<exists>m. journal w' ! (length (journal w) + k) =
                (out_fname out_prefix (labels ! k), IntImage m) \<and>
              shape (dataobj m) = shape (dataobj seg_nii) \<and>
              length (flat (dataobj m)) = length (flat (dataobj seg_nii)) \<and>
              (prod_list (shape (dataobj seg_nii)) = length (flat (dataobj seg_nii)) \<longrightarrow>
                 prod_list (shape (dataobj m)) = length (flat (dataobj m))) \<and>
              affine m = affine seg_nii \<and>
              header m = from_header (header seg_nii) \<and>
              ((\<forall>x. header seg_nii \<noteq> OtherHeader x) \<longrightarrow> header m = header seg_nii) \<and>
              (\<forall>x. header seg_nii = OtherHeader x \<longrightarrow>
                 header m = ConvertedHeader x \<and> header m \<noteq> header seg_nii)"
    if k: "k < length labels" for k
  proof (intro exI conjI)
    show "journal w' ! (length (journal w) + k) =
        (out_fname out_prefix (labels ! k), IntImage (mask_image seg_nii (labels ! k)))"
      using j k by (rule nth_mask_write)
    show "shape (dataobj (mask_image seg_nii (labels ! k))) = shape (dataobj seg_nii)"
      by (simp add: mask_image_def out_nii_def mask_def)
    show "length (flat (dataobj (mask_image seg_nii (labels ! k)))) =
        length (flat (dataobj seg_nii))"
      by (simp add: mask_image_def out_nii_def mask_def)
    show "prod_list (shape (dataobj seg_nii)) = length (flat (dataobj seg_nii)) \<longrightarrow>
        prod_list (shape (dataobj (mask_image seg_nii (labels ! k)))) =
          length (flat (dataobj (mask_image seg_nii (labels ! k))))"
      by (simp add: mask_image_def out_nii_def mask_def)
    show "affine (mask_image seg_nii (labels ! k)) = affine seg_nii"
      by (simp add: mask_image_def out_nii_def)
    show "header (mask_image seg_nii (labels ! k)) = from_header (header seg_nii)"
      by (simp add: mask_image_def out_nii_def)
    show "(\<forall>x. header seg_nii \<noteq> OtherHeader x) \<longrightarrow>
        header (mask_image seg_nii (labels ! k)) = header seg_nii"
      using keep[of "header seg_nii"] by (simp add: mask_image_def out_nii_def)
    show "\<forall>x. header seg_nii = OtherHeader x \<longrightarrow>
        header (mask_image seg_nii (labels ! k)) = ConvertedHeader x \<and>
        header (mask_image seg_nii (labels ! k)) \<noteq> header seg_nii"
      using conv[of "header seg_nii"] by (simp add: mask_image_def out_nii_def)
  qed
  with run show ?thesis by blast
qed

theorem shape_affine_header_preserved_witness:
  "nib_load demo_world ''seg.nii.gz'' = Inr grid_nii \<and>
   determine_labels (dataobj grid_nii) (Some [2, 5]) = Inr (Some [PyInt 2]) \<and>
   (\<exists>w'. util_create_label_masks demo_world ''seg.nii.gz'' ''out_'' (Some [2, 5]) = Inr w' \<and>
      (\<exists>m. journal w' ! 0 = (''out_2.nii.gz'', IntImage m) \<and>
           shape (dataobj m) = [2, 2] \<and> length (flat (dataobj m)) = 4 \<and>
           prod_list (shape (dataobj m)) = length (flat (dataobj m)) \<and>
           affine m = identity_affine \<and> header m = Nifti1Header ''hdr''))"
proof -
  from shape_affine_header_preserved[OF load_seg labels_seg_2_5, where out_prefix = "''out_''"]
  obtain w' where
    run: "util_create_label_masks demo_world ''seg.nii.gz'' ''out_'' (Some [2, 5]) = Inr w'"
    and all: "\<forall>k<length [PyInt 2]. \<exists>m.
        journal w' ! (length (journal demo_world) + k) =
          (out_fname ''out_'' ([PyInt 2] ! k), IntImage m) \<and>
        shape (dataobj m) = shape (dataobj grid_nii) \<and>
        length (flat (dataobj m)) = length (flat (dataobj grid_nii)) \<and>
        (prod_list (shape (dataobj grid_nii)) = length (flat (dataobj grid_nii)) \<longrightarrow>
           prod_list (shape (dataobj m)) = length (flat (dataobj m))) \<and>
        affine m = affine grid_nii \<and>
        header m = from_header (header grid_nii) \<and>
        ((\<forall>x. header grid_nii \<noteq> OtherHeader x) \<longrightarrow> header m = header grid_nii) \<and>
        (\<forall>x. header grid_nii = OtherHeader x \<longrightarrow>
           header m = ConvertedHeader x \<and> header m \<noteq> header grid_nii)"
    by (elim exE conjE) (rule that)
  have n2: "out_fname ''out_'' (PyInt 2) = ''out_2.nii.gz''"
    by (simp add: out_fname_PyInt str_int_small)
  have g: "shape (dataobj grid_nii) = [2, 2]" "length (flat (dataobj grid_nii)) = 4"
      "affine grid_nii = identity_affine" "header grid_nii = Nifti1Header ''hdr''"
    by (simp_all add: grid_nii_def)
  have "\<exists>m. journal w' ! 0 = (''out_2.nii.gz'', IntImage m) \<and>
           shape (dataobj m) = [2, 2] \<and> length (flat (dataobj m)) = 4 \<and>
           prod_list (shape (dataobj m)) = length (flat (dataobj m)) \<and>
           affine m = identity_affine \<and> header m = Nifti1Header ''hdr''"
    using all[THEN spec, of 0] by (simp add: n2 demo_world_empty g)
  with load_seg labels_seg_2_5 run show ?thesis by (intro conjI exI[of _ w'])
qed

theorem shape_affine_header_preserved_counterexample:
  "nib_load demo_world ''other.nii'' = Inr other_nii \<and>
   header other_nii = OtherHeader ''hdr2'' \<and>
   map_sum id journal
     (util_create_label_masks demo_world ''other.nii'' ''out_'' (Some [2])) =
     Inr [(''out_2.nii.gz'',
           IntImage \<lparr>dataobj = \<lparr>shape = [2, 2], flat = [0, 0, 1, 0]\<rparr>,
                     affine = identity_affine, header = ConvertedHeader ''hdr2''\<rparr>),
          (''out_List.csv'', TextFile [''2''])] \<and>
   ConvertedHeader ''hdr2'' \<noteq> header other_nii"
proof -
  have h: "header other_nii = OtherHeader ''hdr2''" by (simp add: other_nii_def)
  have l: "determine_labels (dataobj other_nii) (Some [2]) = Inr (Some [PyInt 2])"
    by (simp add: determine_labels_def np_unique_def other_nii_def contains_def float64_of_int_small)
  have r: "map_sum id journal
     (util_create_label_masks demo_world ''other.nii'' ''out_'' (Some [2])) =
     Inr [(''out_2.nii.gz'',
           IntImage \<lparr>dataobj = \<lparr>shape = [2, 2], flat = [0, 0, 1, 0]\<rparr>,
                     affine = identity_affine, header = ConvertedHeader ''hdr2''\<rparr>),
          (''out_List.csv'', TextFile [''2''])]"
    unfolding run_loop[OF load_other l]
    by (simp add: save_label_def eq_mask_def
        as_float64_def float64_of_int_small mask_def out_nii_def out_fname_def out_list_def
        int_label_def str_int_small print_def nib_save_def write_file_def np_savetxt_def
        array_dtype_def scalar_dtype_def fmt_d_def demo_world_empty other_nii_def)
  have n: "ConvertedHeader ''hdr2'' \<noteq> header other_nii" by (simp add: other_nii_def)
  from load_other h r n show ?thesis by (intro conjI)
qed

text \<open>
  C3. With no label list, the labels processed are the distinct values of the grid
  other than 0, in strictly ascending order: the mask files are written for exactly
  these labels, in this order, before the manifest. 0 is not among them.
\<close>

theorem auto_discovery:
  assumes load: "nib_load w seg_file = Inr seg_nii"
  shows "\<exists>w' vs.
           determine_labels (dataobj seg_nii) None = Inr (Some (map NpFloat vs)) \<and>
           util_create_label_masks w seg_file out_prefix None = Inr w' \<and>
           set vs = set (flat (dataobj seg_nii)) - {0} \<and>
           sorted_wrt (<) vs \<and>
           0 \<notin> set vs \<and>
           map fst (journal w') =
             map fst (journal w) @ map (\<lambda>v. out_fname out_prefix (NpFloat v)) vs @
               [out_list out_prefix] \<and>
           console w' =
             console w @ map (\<lambda>v. saved_msg out_prefix (NpFloat v)) vs @ [list_msg out_prefix]"
proof -
  let ?vs = "filter (\<lambda>l. l \<noteq> 0) (np_unique (dataobj seg_nii))"
  have det: "determine_labels (dataobj seg_nii) None = Inr (Some (map NpFloat ?vs))"
    by (rule determine_labels_None)
  from run_labels[OF load det, of out_prefix] obtain w' where
    run: "util_create_label_masks w seg_file out_prefix None = Inr w'"
    and j: "journal w' =
       journal w @
       map (\<lambda>l. (out_fname out_prefix l, IntImage (mask_image seg_nii l))) (map NpFloat ?vs) @
         [(out_list out_prefix,
           TextFile (map (fmt_d (array_dtype (map NpFloat ?vs))) (map NpFloat ?vs)))]"
    and c: "console w' =
       console w @ map (saved_msg out_prefix) (map NpFloat ?vs) @ [list_msg out_prefix]"
    by (elim exE conjE) (rule that)
  have s: "set ?vs = set (flat (dataobj seg_nii)) - {0}"
    by (auto simp: set_np_unique)
  have o: "sorted_wrt (<) ?vs"
    by (rule sorted_wrt_filter) (rule strict_sorted_np_unique)
  have z: "0 \<notin> set ?vs" by simp
  have j': "map fst (journal w') =
      map fst (journal w) @ map (\<lambda>v. out_fname out_prefix (NpFloat v)) ?vs @
        [out_list out_prefix]"
    unfolding j by (simp add: comp_def)
  have c': "console w' =
      console w @ map (\<lambda>v. saved_msg out_prefix (NpFloat v)) ?vs @ [list_msg out_prefix]"
    unfolding c by (simp add: comp_def)
  from det run s o z j' c' show ?thesis by (intro exI[of _ w'] exI[of _ ?vs] conjI)
qed

theorem auto_discovery_witness:
  "nib_load demo_world ''seg.nii.gz'' = Inr grid_nii \<and>
   determine_labels (dataobj grid_nii) None = Inr (Some [NpFloat 1, NpFloat 2]) \<and>
   (\<exists>w'. util_create_label_masks demo_world ''seg.nii.gz'' ''out_'' None = Inr w' \<and>
      map fst (journal w') = [''out_1.nii.gz'', ''out_2.nii.gz'', ''out_List.csv''] \<and>
      console w' = [''Saved label 1 to out_1.nii.gz'', ''Saved label 2 to out_2.nii.gz'',
                    ''Saved list of labels to out_List.csv''])"
proof -
  from auto_discovery[OF load_seg, where out_prefix = "''out_''"]
  obtain w' vs where
    det: "determine_labels (dataobj grid_nii) None = Inr (Some (map NpFloat vs))"
    and run: "util_create_label_masks demo_world ''seg.nii.gz'' ''out_'' None = Inr w'"
    and j: "map fst (journal w') =
        map fst (journal demo_world) @ map (\<lambda>v. out_fname ''out_'' (NpFloat v)) vs @
          [out_list ''out_'']"
    and c: "console w' =
        console demo_world @ map (\<lambda>v. saved_msg ''out_'' (NpFloat v)) vs @ [list_msg ''out_'']"
    by (elim exE conjE) (rule that)
  from det labels_seg_auto have "map NpFloat vs = [NpFloat 1, NpFloat 2]" by simp
  then have l: "vs = [1, 2]" by (auto simp: map_eq_Cons_conv)
  have j': "map fst (journal w') = [''out_1.nii.gz'', ''out_2.nii.gz'', ''out_List.csv'']"
    unfolding j l
    by (simp add: demo_world_def out_fname_def out_list_def int_label_def py_int_def str_int_def
        digits.simps digit_char_def)
  have c': "console w' = [''Saved label 1 to out_1.nii.gz'', ''Saved label 2 to out_2.nii.gz'',
                    ''Saved list of labels to out_List.csv'']"
    unfolding c l
    by (simp add: demo_world_def saved_msg_def list_msg_def out_fname_def out_list_def
        int_label_def py_int_def str_int_def digits.simps digit_char_def)
  from load_seg labels_seg_auto run j' c' show ?thesis by (intro conjI exI[of _ w'])
qed

text \<open>
  C4. With a label list, every entry is first converted to a 64-bit floating-point
  number. When every entry can be converted, the labels processed are the entries whose
  floating-point value occurs in the grid, in the order of the list and as often as
  the list has them: a subsequence of the list. The mask files are written for exactly
  these entries, in this order, before the manifest. For an entry of magnitude at most
  \<open>2^53\<close> the floating-point value is the entry, so such an entry is processed exactly
  when it occurs in the grid. (When no entry is kept nothing is processed; that case is
  C5.) When some entry cannot be converted, which is so from \<open>2^1024\<close> on, the function
  raises \<^verbatim>\<open>OverflowError\<close>.
\<close>

theorem explicit_filtering:
  assumes load: "nib_load w seg_file = Inr seg_nii"
  shows "((\<forall>lbl\<in>set label_list. float64_of_int lbl \<noteq> Inl OverflowError) \<longrightarrow>
          filter (\<lambda>lbl. round_float64 lbl \<in> set (flat (dataobj seg_nii))) label_list \<noteq> [] \<longrightarrow>
          (\<exists>w' kept.
             kept = filter (\<lambda>lbl. round_float64 lbl \<in> set (flat (dataobj seg_nii))) label_list \<and>
             subseq kept label_list \<and>
             determine_labels (dataobj seg_nii) (Some label_list) = Inr (Some (map PyInt kept)) \<and>
             util_create_label_masks w seg_file out_prefix (Some label_list) = Inr w' \<and>
             map fst (journal w') =
               map fst (journal w) @ map (\<lambda>lbl. out_fname out_prefix (PyInt lbl)) kept @
                 [out_list out_prefix] \<and>
             (\<forall>lbl\<in>set label_list. \<bar>lbl\<bar> \<le> 2 ^ 53 \<longrightarrow>
                (lbl \<in> set kept \<longleftrightarrow> of_int lbl \<in> set (flat (dataobj seg_nii)))))) \<and>
         ((\<exists>lbl\<in>set label_list. float64_of_int lbl = Inl OverflowError) \<longrightarrow>
          util_create_label_masks w seg_file out_prefix (Some label_list) = Inl OverflowError)"
proof (intro conjI impI)
  let ?kept = "filter (\<lambda>lbl. round_float64 lbl \<in> set (flat (dataobj seg_nii))) label_list"
  assume conv: "\<forall>lbl\<in>set label_list. float64_of_int lbl \<noteq> Inl OverflowError"
    and some: "?kept \<noteq> []"
  have det: "determine_labels (dataobj seg_nii) (Some label_list) = Inr (Some (map PyInt ?kept))"
    using some by (simp add: determine_labels_Some_ok[OF conv])
  from run_labels[OF load det, of out_prefix] obtain w' where
    run: "util_create_label_masks w seg_file out_prefix (Some label_list) = Inr w'"
    and j: "journal w' =
       journal w @
       map (\<lambda>l. (out_fname out_prefix l, IntImage (mask_image seg_nii l))) (map PyInt ?kept) @
         [(out_list out_prefix,
           TextFile (map (fmt_d (array_dtype (map PyInt ?kept))) (map PyInt ?kept)))]"
    by (elim exE conjE) (rule that)
  have sub: "subseq ?kept label_list" by simp
  have j': "map fst (journal w') =
      map fst (journal w) @ map (\<lambda>lbl. out_fname out_prefix (PyInt lbl)) ?kept @
        [out_list out_prefix]"
    unfolding j by (simp add: comp_def)
  have small: "\<forall>lbl\<in>set label_list. \<bar>lbl\<bar> \<le> 2 ^ 53 \<longrightarrow>
      (lbl \<in> set ?kept \<longleftrightarrow> of_int lbl \<in> set (flat (dataobj seg_nii)))"
    by (simp add: round_float64_exact)
  show "\<exists>w' kept.
      kept = ?kept \<and> subseq kept label_list \<and>
      determine_labels (dataobj seg_nii) (Some label_list) = Inr (Some (map PyInt kept)) \<and>
      util_create_label_masks w seg_file out_prefix (Some label_list) = Inr w' \<and>
      map fst (journal w') =
        map fst (journal w) @ map (\<lambda>lbl. out_fname out_prefix (PyInt lbl)) kept @
          [out_list out_prefix] \<and>
      (\<forall>lbl\<in>set label_list. \<bar>lbl\<bar> \<le> 2 ^ 53 \<longrightarrow>
         (lbl \<in> set kept \<longleftrightarrow> of_int lbl \<in> set (flat (dataobj seg_nii))))"
  proof (intro exI conjI)
    show "?kept = ?kept" by (rule refl)
    show "util_create_label_masks w seg_file out_prefix (Some label_list) = Inr w'" by (fact run)
  qed (fact sub det j' small)+
next
  assume "\<exists>lbl\<in>set label_list. float64_of_int lbl = Inl OverflowError"
  then obtain lbl where m: "lbl \<in> set label_list" and o: "float64_of_int lbl = Inl OverflowError"
    by (elim bexE)
  from m o have "determine_labels (dataobj seg_nii) (Some label_list) = Inl OverflowError"
    by (rule determine_labels_overflow)
  with load show "util_create_label_masks w seg_file out_prefix (Some label_list) = Inl OverflowError"
    by (rule run_raises)
qed

theorem explicit_filtering_witness:
  "nib_load demo_world ''seg.nii.gz'' = Inr grid_nii \<and>
   filter (\<lambda>lbl. round_float64 lbl \<in> set (flat (dataobj grid_nii))) [2, 5, 1] = [2, 1] \<and>
   (\<exists>w'. util_create_label_masks demo_world ''seg.nii.gz'' ''out_'' (Some [2, 5, 1]) = Inr w' \<and>
      map fst (journal w') = [''out_2.nii.gz'', ''out_1.nii.gz'', ''out_List.csv'']) \<and>
   float64_of_int (2 ^ 1024) = Inl OverflowError \<and>
   util_create_label_masks demo_world ''seg.nii.gz'' ''out_'' (Some [5, 2 ^ 1024]) =
     Inl OverflowError"
proof -
  have k: "filter (\<lambda>lbl. round_float64 lbl \<in> set (flat (dataobj grid_nii))) [2, 5, 1] = [2, 1]"
    by (simp add: grid_nii_def round_float64_small)
  then have h2: "filter (\<lambda>lbl. round_float64 lbl \<in> set (flat (dataobj grid_nii))) [2, 5, 1] \<noteq> []"
    by simp
  have h1: "\<forall>lbl\<in>set [2, 5, 1]. float64_of_int lbl \<noteq> Inl OverflowError"
    by (simp add: float64_of_int_small)
  from explicit_filtering[OF load_seg, of "[2, 5, 1]" "''out_''", THEN conjunct1, THEN mp, THEN mp,
      OF h1 h2]
  obtain w' where
    run: "util_create_label_masks demo_world ''seg.nii.gz'' ''out_'' (Some [2, 5, 1]) = Inr w'"
    and j: "map fst (journal w') =
        map fst (journal demo_world) @
        map (\<lambda>lbl. out_fname ''out_'' (PyInt lbl))
          (filter (\<lambda>lbl. round_float64 lbl \<in> set (flat (dataobj grid_nii))) [2, 5, 1]) @
        [out_list ''out_'']"
    by (elim exE conjE) (simp add: that)
  have j': "map fst (journal w') = [''out_2.nii.gz'', ''out_1.nii.gz'', ''out_List.csv'']"
    unfolding j k
    by (simp add: demo_world_def out_fname_PyInt out_list_def str_int_small)
  from run j' have a: "\<exists>w'. util_create_label_masks demo_world ''seg.nii.gz'' ''out_'' (Some [2, 5, 1]) = Inr w' \<and>
      map fst (journal w') = [''out_2.nii.gz'', ''out_1.nii.gz'', ''out_List.csv'']"
    by (intro exI[of _ w'] conjI)
  have o: "float64_of_int (2 ^ 1024) = Inl OverflowError"
    by (rule float64_of_int_overflow) simp
  then have "\<exists>lbl\<in>set [5, 2 ^ 1024]. float64_of_int lbl = Inl OverflowError" by simp
  with explicit_filtering[OF load_seg, of "[5, 2 ^ 1024]" "''out_''", THEN conjunct2]
  have b: "util_create_label_masks demo_world ''seg.nii.gz'' ''out_'' (Some [5, 2 ^ 1024]) =
     Inl OverflowError"
    by (rule mp)
  from load_seg k a o b show ?thesis by (intro conjI)
qed

theorem explicit_filtering_counterexample:
  "nib_load demo_world ''big.nii.gz'' = Inr big_nii \<and>
   np_unique (dataobj big_nii) = [0, 9007199254740992] \<and>
   of_int 9007199254740993 \<notin> set (np_unique (dataobj big_nii)) \<and>
   map_sum id (map fst \<circ> journal)
     (util_create_label_masks demo_world ''big.nii.gz'' ''out_'' (Some [9007199254740993])) =
     Inr [''out_9007199254740993.nii.gz'', ''out_List.csv'']"
proof -
  have u: "np_unique (dataobj big_nii) = [0, 9007199254740992]"
    by (simp add: np_unique_def big_nii_def)
  have n: "of_int 9007199254740993 \<notin> set (np_unique (dataobj big_nii))"
    unfolding u by simp
  have r: "map_sum id (map fst \<circ> journal)
     (util_create_label_masks demo_world ''big.nii.gz'' ''out_'' (Some [9007199254740993])) =
     Inr [''out_9007199254740993.nii.gz'', ''out_List.csv'']"
    unfolding run_loop[OF load_big labels_big]
    by (simp add: save_label_def eq_mask_def as_float64_def float64_of_int_above_2_53
        out_fname_def out_list_def int_label_def str_int_above_2_53 print_def nib_save_def
        write_file_def np_savetxt_def demo_world_empty)
  from load_big u n r show ?thesis by (intro conjI)
qed

text \<open>
  C5. With a label list whose entries can all be converted to 64-bit floating-point
  numbers and none of whose entries has its floating-point value in the grid, the
  function prints the message that no specified label was found and returns normally:
  no file is written, neither a mask nor the manifest, and the disk is as it was. An
  entry of magnitude at most \<open>2^53\<close> is converted to itself (\<open>round_float64_exact\<close>), so
  for such entries this is the case when none of them occurs in the grid.
\<close>

theorem empty_intersection:
  assumes load: "nib_load w seg_file = Inr seg_nii"
    and conv: "\<forall>lbl\<in>set label_list. float64_of_int lbl \<noteq> Inl OverflowError"
    and none: "\<forall>lbl\<in>set label_list. round_float64 lbl \<notin> set (flat (dataobj seg_nii))"
  shows "\<exists>w'. util_create_label_masks w seg_file out_prefix (Some label_list) = Inr w' \<and>
           disk w' = disk w \<and>
           journal w' = journal w \<and>
           console w' = console w @ [''No specified labels found in segmentation.'']"
proof -
  have "filter (\<lambda>lbl. round_float64 lbl \<in> set (flat (dataobj seg_nii))) label_list = []"
    using none by (simp add: filter_empty_conv)
  then have det: "determine_labels (dataobj seg_nii) (Some label_list) = Inr None"
    by (simp add: determine_labels_Some_ok[OF conv])
  have run: "util_create_label_masks w seg_file out_prefix (Some label_list) =
      Inr (print no_labels_msg w)"
    using load det by (rule run_early)
  show ?thesis
    unfolding run by (simp add: print_def no_labels_msg_def)
qed

theorem empty_intersection_witness:
  "nib_load demo_world ''seg.nii.gz'' = Inr grid_nii \<and>
   float64_of_int 5 = Inr 5 \<and> float64_of_int 9 = Inr 9 \<and>
   (5 :: rat) \<notin> set (flat (dataobj grid_nii)) \<and> (9 :: rat) \<notin> set (flat (dataobj grid_nii)) \<and>
   (\<exists>w'. util_create_label_masks demo_world ''seg.nii.gz'' ''out_'' (Some [5, 9]) = Inr w' \<and>
      disk w' = disk demo_world \<and>
      journal w' = [] \<and>
      console w' = [''No specified labels found in segmentation.''])"
proof -
  have a: "(5 :: rat) \<notin> set (flat (dataobj grid_nii))" by (simp add: grid_nii_def)
  have b: "(9 :: rat) \<notin> set (flat (dataobj grid_nii))" by (simp add: grid_nii_def)
  have h2: "\<forall>lbl\<in>set [5, 9]. float64_of_int lbl \<noteq> Inl OverflowError"
    by (simp add: float64_of_int_small)
  have h3: "\<forall>lbl\<in>set [5, 9]. round_float64 lbl \<notin> set (flat (dataobj grid_nii))"
    using a b by (simp add: round_float64_small)
  from empty_intersection[OF load_seg h2 h3, where out_prefix = "''out_''"]
  obtain w' where
    run: "util_create_label_masks demo_world ''seg.nii.gz'' ''out_'' (Some [5, 9]) = Inr w'"
    and d: "disk w' = disk demo_world"
    and j: "journal w' = journal demo_world"
    and c: "console w' = console demo_world @ [''No specified labels found in segmentation.'']"
    by (elim exE conjE) (rule that)
  from j have j': "journal w' = []" by (simp add: demo_world_empty)
  from c have c': "console w' = [''No specified labels found in segmentation.'']"
    by (simp add: demo_world_empty)
  from run d j' c' have e: "\<exists>w'. util_create_label_masks demo_world ''seg.nii.gz'' ''out_'' (Some [5, 9]) = Inr w' \<and>
      disk w' = disk demo_world \<and> journal w' = [] \<and>
      console w' = [''No specified labels found in segmentation.'']"
    by (intro exI[of _ w'] conjI)
  from load_seg float64_of_int_small(3) float64_of_int_small(4) a b e show ?thesis
    by (intro conjI)
qed

theorem empty_intersection_counterexample:
  "nib_load demo_world ''big.nii.gz'' = Inr big_nii \<and>
   of_int 9007199254740993 \<notin> set (flat (dataobj big_nii)) \<and>
   map_sum id (length \<circ> journal)
     (util_create_label_masks demo_world ''big.nii.gz'' ''out_'' (Some [9007199254740993])) =
     Inr 2 \<and>
   map_sum id console
     (util_create_label_masks demo_world ''big.nii.gz'' ''out_'' (Some [9007199254740993])) =
     Inr [''Saved label 9007199254740993 to out_9007199254740993.nii.gz'',
          ''Saved list of labels to out_List.csv'']"
proof -
  have n: "of_int 9007199254740993 \<notin> set (flat (dataobj big_nii))"
    by (simp add: big_nii_def)
  have r: "map_sum id (length \<circ> journal)
     (util_create_label_masks demo_world ''big.nii.gz'' ''out_'' (Some [9007199254740993])) =
     Inr 2"
    unfolding run_loop[OF load_big labels_big]
    by (simp add: save_label_def eq_mask_def as_float64_def float64_of_int_above_2_53
        print_def nib_save_def write_file_def np_savetxt_def demo_world_empty)
  have c: "map_sum id console
     (util_create_label_masks demo_world ''big.nii.gz'' ''out_'' (Some [9007199254740993])) =
     Inr [''Saved label 9007199254740993 to out_9007199254740993.nii.gz'',
          ''Saved list of labels to out_List.csv'']"
    unfolding run_loop[OF load_big labels_big]
    by (simp add: save_label_def eq_mask_def as_float64_def float64_of_int_above_2_53
        saved_msg_def list_msg_def out_fname_def out_list_def int_label_def str_int_above_2_53
        print_def nib_save_def write_file_def np_savetxt_def demo_world_empty)
  from load_big n r c show ?thesis by (intro conjI)
qed

text \<open>
  C6. After the masks, the manifest is written to the output prefix followed by
  \<open>List.csv\<close>: it is the last write of the run, it has one line per processed label, in
  the order the labels were processed, and every line is an integer in decimal digits
  with at most a sign before them. The \<open>k\<close>-th line is the integer that names the
  \<open>k\<close>-th mask file when the labels were found in the grid (no label list), when the
  label has a magnitude of at most \<open>2^53\<close>, and when every listed label fits a signed
  64-bit integer. In general the \<open>k\<close>-th line is that integer or the truncated
  floating-point value of the label: a list that mixes entries below \<open>2^63\<close> with
  entries from \<open>2^63\<close> on is stored as floating-point numbers before it is written. The
  last console line reports the manifest.
\<close>

theorem manifest_written_last:
  assumes load: "nib_load w seg_file = Inr seg_nii"
    and labels: "determine_labels (dataobj seg_nii) label_list = Inr (Some labels)"
  shows "\<exists>w' lines.
           util_create_label_masks w seg_file out_prefix label_list = Inr w' \<and>
           journal w' =
             journal w @ map (\<lambda>l. (out_fname out_prefix l, IntImage (mask_image seg_nii l))) labels @
               [(out_prefix @ ''List.csv'', TextFile lines)] \<and>
           disk w' (out_prefix @ ''List.csv'') = Some (TextFile lines) \<and>
           length lines = length labels \<and>
           (\<forall>k<length labels.
              fst (journal w' ! (length (journal w) + k)) =
                out_prefix @ str_int (int_label (labels ! k)) @ ''.nii.gz'' \<and>
              (lines ! k = str_int (int_label (labels ! k)) \<or>
               lines ! k = str_int (py_int (label_value (labels ! k))))) \<and>
           (\<forall>k<length labels. \<forall>v. labels ! k = NpFloat v \<longrightarrow>
              lines ! k = str_int (py_int v) \<and>
              fst (journal w' ! (length (journal w) + k)) = out_prefix @ lines ! k @ ''.nii.gz'') \<and>
           (\<forall>k<length labels. \<forall>n. labels ! k = NpFloat (of_int n) \<or>
                (labels ! k = PyInt n \<and> \<bar>n\<bar> \<le> 2 ^ 53) \<longrightarrow>
              lines ! k = str_int n \<and>
              fst (journal w' ! (length (journal w) + k)) = out_prefix @ lines ! k @ ''.nii.gz'') \<and>
           ((\<forall>n. PyInt n \<in> set labels \<longrightarrow> - (2 ^ 63) \<le> n \<and> n < 2 ^ 63) \<longrightarrow>
              (\<forall>k<length labels.
                 lines ! k = str_int (int_label (labels ! k)) \<and>
                 fst (journal w' ! (length (journal w) + k)) =
                   out_prefix @ lines ! k @ ''.nii.gz'')) \<and>
           (\<forall>l\<in>set lines. set l \<subseteq> set ''-0123456789'') \<and>
           last (console w') = ''Saved list of labels to '' @ out_prefix @ ''List.csv''"
proof -
  let ?lines = "map (fmt_d (array_dtype labels)) labels"
  from run_labels[OF load labels, of out_prefix] obtain w' where
    run: "util_create_label_masks w seg_file out_prefix label_list = Inr w'"
    and j0: "journal w' =
       journal w @ map (\<lambda>l. (out_fname out_prefix l, IntImage (mask_image seg_nii l))) labels @
         [(out_list out_prefix, TextFile ?lines)]"
    and c0: "console w' = console w @ map (saved_msg out_prefix) labels @ [list_msg out_prefix]"
    and d0: "disk w' =
       (disk w ++ map_of (rev (map (\<lambda>l. (out_fname out_prefix l, IntImage (mask_image seg_nii l))) labels)))
         (out_list out_prefix \<mapsto> TextFile ?lines)"
    by (elim exE conjE) (rule that)
  from labels have kind:
    "(\<exists>vs. labels = map NpFloat vs) \<or> ((\<exists>ns. labels = map PyInt ns) \<and> labels \<noteq> [])"
    by (rule determine_labels_kind)
  have j: "journal w' =
      journal w @ map (\<lambda>l. (out_fname out_prefix l, IntImage (mask_image seg_nii l))) labels @
        [(out_prefix @ ''List.csv'', TextFile ?lines)]"
    using j0 by (simp add: out_list_def)
  have d: "disk w' (out_prefix @ ''List.csv'') = Some (TextFile ?lines)"
    unfolding d0 by (simp add: out_list_def)
  have n: "length ?lines = length labels" by simp
  have path: "fst (journal w' ! (length (journal w) + k)) =
      out_prefix @ str_int (int_label (labels ! k)) @ ''.nii.gz''" if "k < length labels" for k
    using nth_mask_write[OF j0 that] by (simp add: out_fname_def)
  have line: "?lines ! k = fmt_d (array_dtype labels) (labels ! k)" if "k < length labels" for k
    using that by simp
  have each: "\<forall>k<length labels.
      fst (journal w' ! (length (journal w) + k)) =
        out_prefix @ str_int (int_label (labels ! k)) @ ''.nii.gz'' \<and>
      (?lines ! k = str_int (int_label (labels ! k)) \<or>
       ?lines ! k = str_int (py_int (label_value (labels ! k))))"
  proof (intro allI impI conjI)
    fix k assume k: "k < length labels"
    show "fst (journal w' ! (length (journal w) + k)) =
        out_prefix @ str_int (int_label (labels ! k)) @ ''.nii.gz''"
      using k by (rule path)
    show "?lines ! k = str_int (int_label (labels ! k)) \<or>
        ?lines ! k = str_int (py_int (label_value (labels ! k)))"
      unfolding line[OF k] by (rule fmt_d_cases)
  qed
  have floats: "\<forall>k<length labels. \<forall>v. labels ! k = NpFloat v \<longrightarrow>
      ?lines ! k = str_int (py_int v) \<and>
      fst (journal w' ! (length (journal w) + k)) = out_prefix @ ?lines ! k @ ''.nii.gz''"
  proof (intro allI impI)
    fix k v assume k: "k < length labels" and l: "labels ! k = NpFloat v"
    have a: "?lines ! k = str_int (py_int v)"
      unfolding line[OF k] l by (rule fmt_d_NpFloat)
    have "fst (journal w' ! (length (journal w) + k)) =
        out_prefix @ str_int (py_int v) @ ''.nii.gz''"
      using path[OF k] by (simp add: l int_label_NpFloat)
    with a show "?lines ! k = str_int (py_int v) \<and>
        fst (journal w' ! (length (journal w) + k)) = out_prefix @ ?lines ! k @ ''.nii.gz''"
      by (simp only: simp_thms)
  qed
  have ints: "\<forall>k<length labels. \<forall>n. labels ! k = NpFloat (of_int n) \<or>
        (labels ! k = PyInt n \<and> \<bar>n\<bar> \<le> 2 ^ 53) \<longrightarrow>
      ?lines ! k = str_int n \<and>
      fst (journal w' ! (length (journal w) + k)) = out_prefix @ ?lines ! k @ ''.nii.gz''"
  proof (intro allI impI)
    fix k n assume k: "k < length labels"
      and l: "labels ! k = NpFloat (of_int n) \<or> (labels ! k = PyInt n \<and> \<bar>n\<bar> \<le> 2 ^ 53)"
    from l have a: "fmt_d (array_dtype labels) (labels ! k) = str_int n"
      by (auto simp: fmt_d_NpFloat py_int_of_int fmt_d_PyInt_exact)
    from l have i: "int_label (labels ! k) = n"
      by (auto simp: int_label_NpFloat int_label_PyInt py_int_of_int)
    have "?lines ! k = str_int n" unfolding line[OF k] by (rule a)
    moreover have "fst (journal w' ! (length (journal w) + k)) =
        out_prefix @ str_int n @ ''.nii.gz''"
      using path[OF k] by (simp only: i)
    ultimately show "?lines ! k = str_int n \<and>
        fst (journal w' ! (length (journal w) + k)) = out_prefix @ ?lines ! k @ ''.nii.gz''"
      by (simp only: simp_thms)
  qed
  have fit: "(\<forall>n. PyInt n \<in> set labels \<longrightarrow> - (2 ^ 63) \<le> n \<and> n < 2 ^ 63) \<longrightarrow>
      (\<forall>k<length labels.
         ?lines ! k = str_int (int_label (labels ! k)) \<and>
         fst (journal w' ! (length (journal w) + k)) = out_prefix @ ?lines ! k @ ''.nii.gz'')"
  proof (intro allI impI)
    fix k assume f: "\<forall>n. PyInt n \<in> set labels \<longrightarrow> - (2 ^ 63) \<le> n \<and> n < 2 ^ 63"
      and k: "k < length labels"
    from k have "labels ! k \<in> set labels" by (rule nth_mem)
    with kind f have "fmt_d (array_dtype labels) (labels ! k) = str_int (int_label (labels ! k))"
      by (rule manifest_line_int64)
    then have a: "?lines ! k = str_int (int_label (labels ! k))" unfolding line[OF k] .
    with path[OF k] show "?lines ! k = str_int (int_label (labels ! k)) \<and>
        fst (journal w' ! (length (journal w) + k)) = out_prefix @ ?lines ! k @ ''.nii.gz''"
      by (simp only: simp_thms)
  qed
  have chars: "\<forall>l\<in>set ?lines. set l \<subseteq> set ''-0123456789''"
  proof
    fix l assume "l \<in> set ?lines"
    then obtain x where "l = fmt_d (array_dtype labels) x" by auto
    then show "set l \<subseteq> set ''-0123456789''" by (simp only: set_fmt_d)
  qed
  have c: "last (console w') = ''Saved list of labels to '' @ out_prefix @ ''List.csv''"
    unfolding c0 by (simp add: list_msg_def out_list_def)
  show ?thesis
  proof (intro exI conjI)
    show "util_create_label_masks w seg_file out_prefix label_list = Inr w'" by (fact run)
    show "journal w' =
      journal w @ map (\<lambda>l. (out_fname out_prefix l, IntImage (mask_image seg_nii l))) labels @
        [(out_prefix @ ''List.csv'', TextFile ?lines)]" by (fact j)
  qed (fact d n each floats ints fit chars c)+
qed

theorem manifest_written_last_witness:
  "nib_load demo_world ''seg.nii.gz'' = Inr grid_nii \<and>
   determine_labels (dataobj grid_nii) None = Inr (Some [NpFloat 1, NpFloat 2]) \<and>
   (\<exists>w'. util_create_label_masks demo_world ''seg.nii.gz'' ''out_'' None = Inr w' \<and>
      map fst (journal w') = [''out_1.nii.gz'', ''out_2.nii.gz'', ''out_List.csv''] \<and>
      snd (last (journal w')) = TextFile [''1'', ''2''] \<and>
      disk w' ''out_List.csv'' = Some (TextFile [''1'', ''2'']))"
proof -
  from manifest_written_last[OF load_seg labels_seg_auto, where out_prefix = "''out_''"]
  obtain w' lines where
    run: "util_create_label_masks demo_world ''seg.nii.gz'' ''out_'' None = Inr w'"
    and j: "journal w' =
        journal demo_world @
        map (\<lambda>l. (out_fname ''out_'' l, IntImage (mask_image grid_nii l))) [NpFloat 1, NpFloat 2] @
        [(''out_'' @ ''List.csv'', TextFile lines)]"
    and d: "disk w' (''out_'' @ ''List.csv'') = Some (TextFile lines)"
    and n: "length lines = length [NpFloat 1, NpFloat 2]"
    and floats: "\<forall>k<length [NpFloat 1, NpFloat 2]. \<forall>v. [NpFloat 1, NpFloat 2] ! k = NpFloat v \<longrightarrow>
        lines ! k = str_int (py_int v) \<and>
        fst (journal w' ! (length (journal demo_world) + k)) = ''out_'' @ lines ! k @ ''.nii.gz''"
    by (elim exE conjE) (rule that)
  have p: "py_int 1 = 1" "py_int 2 = 2" by (simp_all add: py_int_def)
  have l0: "lines ! 0 = ''1''"
    using floats[THEN spec, of 0, THEN mp, THEN spec, of 1] by (simp add: p str_int_small)
  have l1: "lines ! 1 = ''2''"
    using floats[THEN spec, of 1, THEN mp, THEN spec, of 2] by (simp add: p str_int_small)
  have lines: "lines = [''1'', ''2'']"
    using n l0 l1 by (auto simp: list_eq_iff_nth_eq less_Suc_eq numeral_eq_Suc)
  have j': "map fst (journal w') = [''out_1.nii.gz'', ''out_2.nii.gz'', ''out_List.csv'']"
    unfolding j
    by (simp add: demo_world_def out_fname_def int_label_def p str_int_small)
  have m: "snd (last (journal w')) = TextFile [''1'', ''2'']"
    unfolding j lines by simp
  have d': "disk w' ''out_List.csv'' = Some (TextFile [''1'', ''2''])"
    using d lines by simp
  from load_seg labels_seg_auto run j' m d' show ?thesis by (intro conjI exI[of _ w'])
qed

theorem manifest_written_last_counterexample:
  "nib_load demo_world ''huge.nii.gz'' = Inr huge_nii \<and>
   flat (dataobj huge_nii) = [9007199254740992, 9223372036854775808] \<and>
   map_sum id journal
     (util_create_label_masks demo_world ''huge.nii.gz'' ''out_''
        (Some [9007199254740993, 9223372036854775808])) =
     Inr [(''out_9007199254740993.nii.gz'',
           IntImage \<lparr>dataobj = \<lparr>shape = [2], flat = [1, 0]\<rparr>,
                     affine = identity_affine, header = Nifti1Header ''hdr''\<rparr>),
          (''out_9223372036854775808.nii.gz'',
           IntImage \<lparr>dataobj = \<lparr>shape = [2], flat = [0, 1]\<rparr>,
                     affine = identity_affine, header = Nifti1Header ''hdr''\<rparr>),
          (''out_List.csv'', TextFile [''9007199254740992'', ''9223372036854775808''])] \<and>
   ''9007199254740992'' \<noteq> ''9007199254740993''"
proof -
  have f: "flat (dataobj huge_nii) = [9007199254740992, 9223372036854775808]"
    by (simp add: huge_nii_def)
  have p: "py_int 9007199254740992 = 9007199254740992"
      "py_int 9223372036854775808 = 9223372036854775808"
    by (simp_all add: py_int_def)
  have r: "map_sum id journal
     (util_create_label_masks demo_world ''huge.nii.gz'' ''out_''
        (Some [9007199254740993, 9223372036854775808])) =
     Inr [(''out_9007199254740993.nii.gz'',
           IntImage \<lparr>dataobj = \<lparr>shape = [2], flat = [1, 0]\<rparr>,
                     affine = identity_affine, header = Nifti1Header ''hdr''\<rparr>),
          (''out_9223372036854775808.nii.gz'',
           IntImage \<lparr>dataobj = \<lparr>shape = [2], flat = [0, 1]\<rparr>,
                     affine = identity_affine, header = Nifti1Header ''hdr''\<rparr>),
          (''out_List.csv'', TextFile [''9007199254740992'', ''9223372036854775808''])]"
    unfolding run_loop[OF load_huge labels_huge]
    by (simp add: save_label_def eq_mask_def
        as_float64_def float64_of_int_above_2_53 float64_of_int_2_63 mask_def out_nii_def
        out_fname_def out_list_def int_label_def str_int_above_2_53 str_int_2_53 str_int_2_63
        print_def nib_save_def write_file_def np_savetxt_def
        array_dtype_def scalar_dtype_def fmt_d_def round_float64_above_2_53 round_float64_2_63 p
        demo_world_empty huge_nii_def)
  have n: "''9007199254740992'' \<noteq> ''9007199254740993''" by simp
  from load_huge f r n show ?thesis by (intro conjI)
qed



text \<open>
  C8. A label list is not de-duplicated, provided every entry of the list can be
  converted to a 64-bit floating-point number (otherwise the function raises before
  it writes anything). If an entry whose floating-point value occurs in the grid
  occurs \<open>k\<close> times in the list, the run writes the mask file of that entry \<open>k\<close> times,
  to the same path, which in the end holds the mask of that value. When the processed
  entries fit a signed 64-bit integer the manifest has \<open>k\<close> lines for it.
\<close>

theorem duplicates_not_removed:
  assumes load: "nib_load w seg_file = Inr seg_nii"
    and conv: "\<forall>lbl\<in>set label_list. float64_of_int lbl \<noteq> Inl OverflowError"
    and present: "round_float64 l \<in> set (flat (dataobj seg_nii))"
    and listed: "l \<in> set label_list"
  shows "\<exists>w' lines.
           util_create_label_masks w seg_file out_prefix (Some label_list) = Inr w' \<and>
           length (filter (\<lambda>e. fst e = out_prefix @ str_int l @ ''.nii.gz'')
                     (drop (length (journal w)) (journal w'))) = count_list label_list l \<and>
           disk w' (out_prefix @ str_int l @ ''.nii.gz'') =
             Some (IntImage (out_nii seg_nii (mask (dataobj seg_nii) (round_float64 l)))) \<and>
           last (journal w') = (out_prefix @ ''List.csv'', TextFile lines) \<and>
           ((\<forall>x\<in>set label_list. round_float64 x \<in> set (flat (dataobj seg_nii)) \<longrightarrow>
                - (2 ^ 63) \<le> x \<and> x < 2 ^ 63) \<longrightarrow>
            count_list lines (str_int l) = count_list label_list l)"
proof -
  let ?P = "\<lambda>lbl. round_float64 lbl \<in> set (flat (dataobj seg_nii))"
  let ?kept = "filter ?P label_list"
  let ?labels = "map PyInt ?kept"
  let ?lines = "map (fmt_d (array_dtype ?labels)) ?labels"
  let ?writes = "map (\<lambda>x. (out_fname out_prefix x, IntImage (mask_image seg_nii x))) ?labels"
  from present listed have kept: "l \<in> set ?kept" by simp
  then have ne: "?kept \<noteq> []" by (rule ne_empty_if_mem)
  have det: "determine_labels (dataobj seg_nii) (Some label_list) = Inr (Some ?labels)"
    using ne by (simp add: determine_labels_Some_ok[OF conv])
  from run_labels[OF load det, of out_prefix] obtain w' where
    run: "util_create_label_masks w seg_file out_prefix (Some label_list) = Inr w'"
    and j: "journal w' = journal w @ ?writes @ [(out_list out_prefix, TextFile ?lines)]"
    and d0: "disk w' =
       (disk w ++ map_of (rev ?writes))(out_list out_prefix \<mapsto> TextFile ?lines)"
    by (elim exE conjE) (rule that)
  have name: "out_prefix @ str_int l @ ''.nii.gz'' = out_fname out_prefix (PyInt l)"
    by (simp add: out_fname_PyInt)
  have keep: "count_list ?kept l = count_list label_list l"
    using present by (rule count_list_filter_keep)
  have dr: "drop (length (journal w)) (journal w') =
      ?writes @ [(out_list out_prefix, TextFile ?lines)]"
    unfolding j by simp
  have "length (filter (\<lambda>e. fst e = out_prefix @ str_int l @ ''.nii.gz'')
      (drop (length (journal w)) (journal w'))) = count_list ?kept l"
    unfolding name dr by (rule count_mask_writes)
  also note keep
  finally have writes: "length (filter (\<lambda>e. fst e = out_prefix @ str_int l @ ''.nii.gz'')
      (drop (length (journal w)) (journal w'))) = count_list label_list l" .
  have img: "mask_image seg_nii (PyInt l) =
      out_nii seg_nii (mask (dataobj seg_nii) (round_float64 l))"
    by (simp add: mask_image_def label_value_PyInt)
  have "disk w' (out_prefix @ str_int l @ ''.nii.gz'') =
      Some (IntImage (mask_image seg_nii (PyInt l)))"
    unfolding name d0 using kept by (rule disk_after_mask_writes)
  then have d: "disk w' (out_prefix @ str_int l @ ''.nii.gz'') =
      Some (IntImage (out_nii seg_nii (mask (dataobj seg_nii) (round_float64 l))))"
    by (simp only: img)
  have lastw: "last (journal w') = (out_prefix @ ''List.csv'', TextFile ?lines)"
    unfolding j by (simp add: out_list_def)
  have rows: "(\<forall>x\<in>set label_list. round_float64 x \<in> set (flat (dataobj seg_nii)) \<longrightarrow>
        - (2 ^ 63) \<le> x \<and> x < 2 ^ 63) \<longrightarrow>
      count_list ?lines (str_int l) = count_list label_list l"
  proof
    assume fit: "\<forall>x\<in>set label_list. round_float64 x \<in> set (flat (dataobj seg_nii)) \<longrightarrow>
        - (2 ^ 63) \<le> x \<and> x < 2 ^ 63"
    have "\<forall>y\<in>set ?labels. scalar_dtype y = DInt64"
    proof
      fix y assume "y \<in> set ?labels"
      then obtain x where x: "x \<in> set label_list" "?P x" and y: "y = PyInt x" by auto
      from fit x have "- (2 ^ 63) \<le> x \<and> x < 2 ^ 63" by simp
      then show "scalar_dtype y = DInt64" unfolding y by (simp add: scalar_dtype_int64)
    qed
    moreover from ne have "?labels \<noteq> []" by simp
    ultimately have t: "array_dtype ?labels = DInt64" by (intro array_dtype_int64)
    have lines_eq: "?lines = map str_int ?kept"
      unfolding t by (simp add: fmt_d_PyInt_integer)
    have "count_list ?lines (str_int l) = count_list (map str_int ?kept) (str_int l)"
      by (simp only: lines_eq)
    also have "\<dots> = count_list ?kept l"
      by (rule count_list_map_inj) (rule str_int_inj)
    also note keep
    finally show "count_list ?lines (str_int l) = count_list label_list l" .
  qed
  show ?thesis
  proof (intro exI conjI)
    show "util_create_label_masks w seg_file out_prefix (Some label_list) = Inr w'"
      by (fact run)
    show "last (journal w') = (out_prefix @ ''List.csv'', TextFile ?lines)" by (fact lastw)
  qed (fact writes d rows)+
qed

theorem duplicates_not_removed_witness:
  "nib_load demo_world ''seg.nii.gz'' = Inr grid_nii \<and>
   round_float64 2 \<in> set (flat (dataobj grid_nii)) \<and>
   (2 :: int) \<in> set [2, 1, 2] \<and>
   (\<exists>w' lines.
      util_create_label_masks demo_world ''seg.nii.gz'' ''out_'' (Some [2, 1, 2]) = Inr w' \<and>
      length (filter (\<lambda>e. fst e = ''out_2.nii.gz'') (journal w')) = 2 \<and>
      last (journal w') = (''out_List.csv'', TextFile lines) \<and>
      count_list lines ''2'' = 2)"
proof -
  have h1: "\<forall>lbl\<in>set [2, 1, 2]. float64_of_int lbl \<noteq> Inl OverflowError"
    by (simp add: float64_of_int_small)
  have h2: "round_float64 2 \<in> set (flat (dataobj grid_nii))"
    by (simp add: grid_nii_def round_float64_small)
  have h3: "(2 :: int) \<in> set [2, 1, 2]" by simp
  have fit: "\<forall>x\<in>set [2, 1, 2 :: int]. round_float64 x \<in> set (flat (dataobj grid_nii)) \<longrightarrow>
      - (2 ^ 63) \<le> x \<and> x < 2 ^ 63"
    by simp
  from duplicates_not_removed[OF load_seg h1 h2 h3, where out_prefix = "''out_''"]
  obtain w' lines where
    run: "util_create_label_masks demo_world ''seg.nii.gz'' ''out_'' (Some [2, 1, 2]) = Inr w'"
    and writes: "length (filter (\<lambda>e. fst e = ''out_'' @ str_int 2 @ ''.nii.gz'')
        (drop (length (journal demo_world)) (journal w'))) = count_list [2, 1, 2] (2 :: int)"
    and lastw: "last (journal w') = (''out_'' @ ''List.csv'', TextFile lines)"
    and rows: "(\<forall>x\<in>set [2, 1, 2]. round_float64 x \<in> set (flat (dataobj grid_nii)) \<longrightarrow>
        - (2 ^ 63) \<le> x \<and> x < 2 ^ 63) \<longrightarrow>
      count_list lines (str_int 2) = count_list [2, 1, 2] (2 :: int)"
    by (elim exE conjE) (rule that)
  have a: "length (filter (\<lambda>e. fst e = ''out_2.nii.gz'') (journal w')) = 2"
    using writes by (simp add: str_int_small demo_world_empty)
  have b: "last (journal w') = (''out_List.csv'', TextFile lines)" using lastw by simp
  from rows fit have "count_list lines (str_int 2) = count_list [2, 1, 2] (2 :: int)"
    by (rule mp)
  then have c: "count_list lines ''2'' = 2" by (simp add: str_int_small)
  from load_seg h2 h3 run a b c show ?thesis by (intro conjI exI[of _ w'] exI[of _ lines])
qed

theorem duplicates_not_removed_counterexample:
  "nib_load demo_world ''seg.nii.gz'' = Inr grid_nii \<and>
   (2 :: rat) \<in> set (flat (dataobj grid_nii)) \<and>
   count_list [2, 2 ^ 1024, 2] (2 :: int) = 2 \<and>
   util_create_label_masks demo_world ''seg.nii.gz'' ''out_'' (Some [2, 2 ^ 1024, 2]) =
     Inl OverflowError"
proof -
  have p: "(2 :: rat) \<in> set (flat (dataobj grid_nii))" by (simp add: grid_nii_def)
  have c: "count_list [2, 2 ^ 1024, 2] (2 :: int) = 2" by simp
  have o: "float64_of_int (2 ^ 1024) = Inl OverflowError"
    by (rule float64_of_int_overflow) simp
  have m: "(2 ^ 1024 :: int) \<in> set [2, 2 ^ 1024, 2]" by simp
  from m o have "determine_labels (dataobj grid_nii) (Some [2, 2 ^ 1024, 2]) = Inl OverflowError"
    by (rule determine_labels_overflow)
  with load_seg have r:
    "util_create_label_masks demo_world ''seg.nii.gz'' ''out_'' (Some [2, 2 ^ 1024, 2]) =
       Inl OverflowError"
    by (rule run_raises)
  from load_seg p c r show ?thesis by (intro conjI)
qed

text \<open>
  C9. The early return belongs to the branch of the label list only. With no label
  list and a grid that holds no value other than 0, the function goes on: the loop
  writes no mask, and the manifest is still written, as a file with no line, and
  reported on the console. Nothing else changes.
\<close>

theorem empty_auto_manifest:
  assumes load: "nib_load w seg_file = Inr seg_nii"
    and zeros: "set (flat (dataobj seg_nii)) \<subseteq> {0}"
  shows "util_create_label_masks w seg_file out_prefix None =
     Inr (w\<lparr>disk := (disk w)(out_prefix @ ''List.csv'' \<mapsto> TextFile []),
            journal := journal w @ [(out_prefix @ ''List.csv'', TextFile [])],
            console := console w @ [''Saved list of labels to '' @ out_prefix @ ''List.csv'']\<rparr>)"
proof -
  have "filter (\<lambda>l. l \<noteq> 0) (np_unique (dataobj seg_nii)) = []"
    using zeros by (auto simp: filter_empty_conv set_np_unique)
  then have det: "determine_labels (dataobj seg_nii) None = Inr (Some [])"
    by (simp add: determine_labels_def)
  show ?thesis
    unfolding run_loop[OF load det]
    by (simp add: print_def np_savetxt_def write_file_def list_msg_def out_list_def)
qed

theorem empty_auto_manifest_witness:
  "nib_load demo_world ''zero.nii.gz'' = Inr zero_nii \<and>
   set (flat (dataobj zero_nii)) \<subseteq> {0} \<and>
   util_create_label_masks demo_world ''zero.nii.gz'' ''out_'' None =
     Inr (demo_world\<lparr>disk := (disk demo_world)(''out_List.csv'' \<mapsto> TextFile []),
            journal := [(''out_List.csv'', TextFile [])],
            console := [''Saved list of labels to out_List.csv'']\<rparr>)"
proof -
  have h2: "set (flat (dataobj zero_nii)) \<subseteq> {0}" by (simp add: zero_nii_def)
  from empty_auto_manifest[OF load_zero h2, where out_prefix = "''out_''"] load_zero h2
  show ?thesis
    by (simp add: demo_world_empty)
qed

text \<open>
  C10. The name of a mask file and the console line of its label carry the label
  converted to an integer. For a value of the grid this truncates toward zero: the
  integer lies between 0 and the value, less than 1 away from it; for an entry of the
  caller's list it is the entry. So two processed labels with the same integer are
  written to the same path, while the manifest has one line for every processed label.
  On a grid holding \<open>1.25\<close> and \<open>1.5\<close> both masks go to the file of label 1 and the
  manifest has two lines.
\<close>

theorem truncated_names:
  assumes load: "nib_load w seg_file = Inr seg_nii"
    and labels: "determine_labels (dataobj seg_nii) label_list = Inr (Some labels)"
  shows "\<exists>w' lines.
           util_create_label_masks w seg_file out_prefix label_list = Inr w' \<and>
           (\<forall>k<length labels.
              fst (journal w' ! (length (journal w) + k)) =
                out_prefix @ str_int (int_label (labels ! k)) @ ''.nii.gz'' \<and>
              console w' ! (length (console w) + k) =
                ''Saved label '' @ str_int (int_label (labels ! k)) @ '' to '' @
                  out_prefix @ str_int (int_label (labels ! k)) @ ''.nii.gz'' \<and>
              (\<forall>v. labels ! k = NpFloat v \<longrightarrow>
                 int_label (labels ! k) = py_int v \<and>
                 (0 \<le> v \<longrightarrow> 0 \<le> py_int v \<and> of_int (py_int v) \<le> v \<and> v < of_int (py_int v) + 1) \<and>
                 (v < 0 \<longrightarrow> py_int v \<le> 0 \<and> v \<le> of_int (py_int v) \<and> of_int (py_int v) - 1 < v)) \<and>
              (\<forall>n. labels ! k = PyInt n \<longrightarrow> int_label (labels ! k) = n)) \<and>
           (\<forall>i<length labels. \<forall>j<length labels.
              int_label (labels ! i) = int_label (labels ! j) \<longrightarrow>
              fst (journal w' ! (length (journal w) + i)) =
                fst (journal w' ! (length (journal w) + j))) \<and>
           last (journal w') = (out_prefix @ ''List.csv'', TextFile lines) \<and>
           length lines = length labels"
proof -
  let ?lines = "map (fmt_d (array_dtype labels)) labels"
  from run_labels[OF load labels, of out_prefix] obtain w' where
    run: "util_create_label_masks w seg_file out_prefix label_list = Inr w'"
    and j: "journal w' =
       journal w @ map (\<lambda>l. (out_fname out_prefix l, IntImage (mask_image seg_nii l))) labels @
         [(out_list out_prefix, TextFile ?lines)]"
    and c: "console w' = console w @ map (saved_msg out_prefix) labels @ [list_msg out_prefix]"
    by (elim exE conjE) (rule that)
  have path: "fst (journal w' ! (length (journal w) + k)) =
      out_prefix @ str_int (int_label (labels ! k)) @ ''.nii.gz''" if "k < length labels" for k
    using nth_mask_write[OF j that] by (simp add: out_fname_def)
  have msg: "console w' ! (length (console w) + k) =
      ''Saved label '' @ str_int (int_label (labels ! k)) @ '' to '' @
        out_prefix @ str_int (int_label (labels ! k)) @ ''.nii.gz''" if "k < length labels" for k
    using nth_saved_msg[OF c that] by (simp add: saved_msg_def out_fname_def)
  have trunc: "\<forall>v. l = NpFloat v \<longrightarrow>
      int_label l = py_int v \<and>
      (0 \<le> v \<longrightarrow> 0 \<le> py_int v \<and> of_int (py_int v) \<le> v \<and> v < of_int (py_int v) + 1) \<and>
      (v < 0 \<longrightarrow> py_int v \<le> 0 \<and> v \<le> of_int (py_int v) \<and> of_int (py_int v) - 1 < v)" for l
  proof (intro allI impI)
    fix v assume l: "l = NpFloat v"
    have a: "int_label l = py_int v" unfolding l by (rule int_label_NpFloat)
    from py_int_truncates[of v] a
    show "int_label l = py_int v \<and>
      (0 \<le> v \<longrightarrow> 0 \<le> py_int v \<and> of_int (py_int v) \<le> v \<and> v < of_int (py_int v) + 1) \<and>
      (v < 0 \<longrightarrow> py_int v \<le> 0 \<and> v \<le> of_int (py_int v) \<and> of_int (py_int v) - 1 < v)"
      by (intro conjI) (erule conjE, assumption)+
  qed
  have ident: "\<forall>n. l = PyInt n \<longrightarrow> int_label l = n" for l
    by (simp add: int_label_def)
  have each: "\<forall>k<length labels.
      fst (journal w' ! (length (journal w) + k)) =
        out_prefix @ str_int (int_label (labels ! k)) @ ''.nii.gz'' \<and>
      console w' ! (length (console w) + k) =
        ''Saved label '' @ str_int (int_label (labels ! k)) @ '' to '' @
          out_prefix @ str_int (int_label (labels ! k)) @ ''.nii.gz'' \<and>
      (\<forall>v. labels ! k = NpFloat v \<longrightarrow>
         int_label (labels ! k) = py_int v \<and>
         (0 \<le> v \<longrightarrow> 0 \<le> py_int v \<and> of_int (py_int v) \<le> v \<and> v < of_int (py_int v) + 1) \<and>
         (v < 0 \<longrightarrow> py_int v \<le> 0 \<and> v \<le> of_int (py_int v) \<and> of_int (py_int v) - 1 < v)) \<and>
      (\<forall>n. labels ! k = PyInt n \<longrightarrow> int_label (labels ! k) = n)"
  proof (intro allI impI conjI)
    fix k assume k: "k < length labels"
    show "fst (journal w' ! (length (journal w) + k)) =
        out_prefix @ str_int (int_label (labels ! k)) @ ''.nii.gz''"
      using k by (rule path)
    show "console w' ! (length (console w) + k) =
        ''Saved label '' @ str_int (int_label (labels ! k)) @ '' to '' @
          out_prefix @ str_int (int_label (labels ! k)) @ ''.nii.gz''"
      using k by (rule msg)
  next
    fix k v assume l: "labels ! k = NpFloat v"
    from trunc[of "labels ! k", THEN spec, of v, THEN mp, OF l]
    show "int_label (labels ! k) = py_int v" by (rule conjunct1)
    from trunc[of "labels ! k", THEN spec, of v, THEN mp, OF l]
    have b: "(0 \<le> v \<longrightarrow> 0 \<le> py_int v \<and> of_int (py_int v) \<le> v \<and> v < of_int (py_int v) + 1) \<and>
      (v < 0 \<longrightarrow> py_int v \<le> 0 \<and> v \<le> of_int (py_int v) \<and> of_int (py_int v) - 1 < v)"
      by (rule conjunct2)
    {
      assume "0 \<le> v"
      with b show "0 \<le> py_int v" by simp
      from b \<open>0 \<le> v\<close> show "of_int (py_int v) \<le> v" by simp
      from b \<open>0 \<le> v\<close> show "v < of_int (py_int v) + 1" by simp
    }
    {
      assume "v < 0"
      with b show "py_int v \<le> 0" by simp
      from b \<open>v < 0\<close> show "v \<le> of_int (py_int v)" by simp
      from b \<open>v < 0\<close> show "of_int (py_int v) - 1 < v" by simp
    }
  next
    fix k n assume "labels ! k = PyInt n"
    then show "int_label (labels ! k) = n" by (simp add: int_label_def)
  qed
  have same: "\<forall>i<length labels. \<forall>j<length labels.
      int_label (labels ! i) = int_label (labels ! j) \<longrightarrow>
      fst (journal w' ! (length (journal w) + i)) =
        fst (journal w' ! (length (journal w) + j))"
    by (simp add: path)
  have lastw: "last (journal w') = (out_prefix @ ''List.csv'', TextFile ?lines)"
    unfolding j by (simp add: out_list_def)
  have n: "length ?lines = length labels" by simp
  show ?thesis
  proof (intro exI conjI)
    show "util_create_label_masks w seg_file out_prefix label_list = Inr w'" by (fact run)
    show "last (journal w') = (out_prefix @ ''List.csv'', TextFile ?lines)" by (fact lastw)
  qed (fact each same n)+
qed

theorem truncated_names_witness:
  "nib_load demo_world ''frac.nii.gz'' = Inr frac_nii \<and>
   determine_labels (dataobj frac_nii) None = Inr (Some [NpFloat (5 / 4), NpFloat (3 / 2)]) \<and>
   (\<exists>w' lines.
      util_create_label_masks demo_world ''frac.nii.gz'' ''out_'' None = Inr w' \<and>
      fst (journal w' ! 0) = ''out_1.nii.gz'' \<and>
      fst (journal w' ! 1) = ''out_1.nii.gz'' \<and>
      console w' ! 0 = ''Saved label 1 to out_1.nii.gz'' \<and>
      console w' ! 1 = ''Saved label 1 to out_1.nii.gz'' \<and>
      last (journal w') = (''out_List.csv'', TextFile lines) \<and>
      length lines = 2)"
proof -
  have p1: "int_label (NpFloat (5 / 4)) = 1" by (simp add: int_label_def py_int_def floor_unique)
  have p2: "int_label (NpFloat (3 / 2)) = 1" by (simp add: int_label_def py_int_def floor_unique)
  from truncated_names[OF load_frac labels_frac_auto, where out_prefix = "''out_''"]
  obtain w' lines where
    run: "util_create_label_masks demo_world ''frac.nii.gz'' ''out_'' None = Inr w'"
    and each: "\<forall>k<length [NpFloat (5 / 4), NpFloat (3 / 2)].
        fst (journal w' ! (length (journal demo_world) + k)) =
          ''out_'' @ str_int (int_label ([NpFloat (5 / 4), NpFloat (3 / 2)] ! k)) @ ''.nii.gz'' \<and>
        console w' ! (length (console demo_world) + k) =
          ''Saved label '' @ str_int (int_label ([NpFloat (5 / 4), NpFloat (3 / 2)] ! k)) @ '' to '' @
            ''out_'' @ str_int (int_label ([NpFloat (5 / 4), NpFloat (3 / 2)] ! k)) @ ''.nii.gz'' \<and>
        (\<forall>v. [NpFloat (5 / 4), NpFloat (3 / 2)] ! k = NpFloat v \<longrightarrow>
           int_label ([NpFloat (5 / 4), NpFloat (3 / 2)] ! k) = py_int v \<and>
           (0 \<le> v \<longrightarrow> 0 \<le> py_int v \<and> of_int (py_int v) \<le> v \<and> v < of_int (py_int v) + 1) \<and>
           (v < 0 \<longrightarrow> py_int v \<le> 0 \<and> v \<le> of_int (py_int v) \<and> of_int (py_int v) - 1 < v)) \<and>
        (\<forall>n. [NpFloat (5 / 4), NpFloat (3 / 2)] ! k = PyInt n \<longrightarrow>
           int_label ([NpFloat (5 / 4), NpFloat (3 / 2)] ! k) = n)"
    and lastw: "last (journal w') = (''out_'' @ ''List.csv'', TextFile lines)"
    and n: "length lines = length [NpFloat (5 / 4), NpFloat (3 / 2)]"
    by (elim exE conjE) (rule that)
  have j0: "length (journal demo_world) = 0" "length (console demo_world) = 0"
    by (simp_all add: demo_world_def)
  from each[THEN spec, of 0] have e0:
    "fst (journal w' ! (length (journal demo_world) + 0)) =
       ''out_'' @ str_int (int_label ([NpFloat (5 / 4), NpFloat (3 / 2)] ! 0)) @ ''.nii.gz''"
    "console w' ! (length (console demo_world) + 0) =
       ''Saved label '' @ str_int (int_label ([NpFloat (5 / 4), NpFloat (3 / 2)] ! 0)) @ '' to '' @
         ''out_'' @ str_int (int_label ([NpFloat (5 / 4), NpFloat (3 / 2)] ! 0)) @ ''.nii.gz''"
    by simp_all
  from each[THEN spec, of 1] have e1:
    "fst (journal w' ! (length (journal demo_world) + 1)) =
       ''out_'' @ str_int (int_label ([NpFloat (5 / 4), NpFloat (3 / 2)] ! 1)) @ ''.nii.gz''"
    "console w' ! (length (console demo_world) + 1) =
       ''Saved label '' @ str_int (int_label ([NpFloat (5 / 4), NpFloat (3 / 2)] ! 1)) @ '' to '' @
         ''out_'' @ str_int (int_label ([NpFloat (5 / 4), NpFloat (3 / 2)] ! 1)) @ ''.nii.gz''"
    by simp_all
  have a0: "fst (journal w' ! 0) = ''out_1.nii.gz''"
    using e0(1) by (simp add: j0 p1 str_int_small)
  have b0: "console w' ! 0 = ''Saved label 1 to out_1.nii.gz''"
    using e0(2) by (simp add: j0 p1 str_int_small)
  have a1: "fst (journal w' ! 1) = ''out_1.nii.gz''"
    using e1(1) by (simp add: j0 p2 str_int_small)
  have b1: "console w' ! 1 = ''Saved label 1 to out_1.nii.gz''"
    using e1(2) by (simp add: j0 p2 str_int_small)
  have b: "last (journal w') = (''out_List.csv'', TextFile lines)" using lastw by simp
  have c: "length lines = 2" using n by simp
  from load_frac labels_frac_auto run a0 a1 b0 b1 b c show ?thesis
    by (intro conjI exI[of _ w'] exI[of _ lines])
qed

end
